theory Spec2Isabelle
  imports
    Main
    "HOL-Library.Multiset"
    "HOL-Library.Char_ord"
    "HOL-Library.List_Lexorder"
    "HOL-Library.Product_Lexorder"
begin

section \<open>Data model\<close>

text \<open>
  The Python code works on dictionaries decoded from JSON and reads them with
  \<^verbatim>\<open>d.get(key, default)\<close>. A dictionary is modelled as a record whose fields are
  optional: \<open>None\<close> is a missing key, \<open>Some v\<close> a key that is present. A field that
  is present holds a value of the type the data model declares for it (text, boolean,
  integer); Python's integers are unbounded, so they are \<open>int\<close>. The record is
  extensible: the \<open>more\<close> part stands for any further keys of the dictionary
  (identifiers and the like), which the ranking code never reads or writes.
\<close>

record answer_record =
  answer :: "string option"
  isCorrect :: "bool option"
  responseCount :: "int option"
  rank :: "int option"
  score :: "int option"

text \<open>\<^verbatim>\<open>d.get(key, default)\<close> on an optional field.\<close>

definition get_or :: "'a option \<Rightarrow> 'a \<Rightarrow> 'a" where
  "get_or v d = (case v of None \<Rightarrow> d | Some x \<Rightarrow> x)"

subsection \<open>Text\<close>

text \<open>
  A \<open>char\<close> stands for a code point below 256. \<open>is_space\<close> is the set of those code
  points that \<^verbatim>\<open>str.strip()\<close> removes, \<open>lower_char\<close> is \<^verbatim>\<open>str.lower()\<close> on one
  of them (the ASCII capitals and the Latin-1 capitals, without the multiplication sign).
\<close>

definition is_space :: "char \<Rightarrow> bool" where
  "is_space c =
     (let n = (of_char c :: nat)
      in (9 \<le> n \<and> n \<le> 13) \<or> (28 \<le> n \<and> n \<le> 32) \<or> n = 133 \<or> n = 160)"

definition strip :: "string \<Rightarrow> string" where
  "strip s = rev (dropWhile is_space (rev (dropWhile is_space s)))"

definition lower_char :: "char \<Rightarrow> char" where
  "lower_char c =
     (let n = (of_char c :: nat)
      in if (65 \<le> n \<and> n \<le> 90) \<or> (192 \<le> n \<and> n \<le> 222 \<and> n \<noteq> 215)
         then char_of (n + 32) else c)"

definition lower :: "string \<Rightarrow> string" where
  "lower s = map lower_char s"

section \<open>Answer ranker (services/ranking\_service.py, class AnswerRanker)\<close>

text \<open>
  The ranker writes the rank and the score into the dictionaries it is given; the model
  returns the records with the two fields set. The answers of a list are taken to be
  distinct objects, as the decoding of a JSON document gives them.

  \<open>is_correct\<close> is the truth value of \<^verbatim>\<open>a.get(AnswerFields.IS_CORRECT, False)\<close>,
  which on a boolean field is also \<^verbatim>\<open>a.get('isCorrect') is True\<close>.
\<close>

definition is_correct :: "'a answer_record_scheme \<Rightarrow> bool" where
  "is_correct a = (get_or (isCorrect a) False)"

definition separate_answers ::
  "'a answer_record_scheme list \<Rightarrow> 'a answer_record_scheme list \<times> 'a answer_record_scheme list" where
  "separate_answers answers =
     (filter is_correct answers, filter (\<lambda>a. \<not> is_correct a) answers)"

text \<open>
  The body of the loop \<^verbatim>\<open>for i, answer in enumerate(correct_answers)\<close>, with the
  index and the two counters as arguments. \<open>scoring_values\<close> is the attribute of the
  ranker object.
\<close>

fun rank_loop ::
  "int list \<Rightarrow> nat \<Rightarrow> 'a answer_record_scheme list \<Rightarrow> nat \<Rightarrow> nat
     \<Rightarrow> 'a answer_record_scheme list \<times> nat \<times> nat" where
  "rank_loop scoring_values i [] answers_ranked answers_scored =
     ([], answers_ranked, answers_scored)"
| "rank_loop scoring_values i (a # rest) answers_ranked answers_scored =
     (let rank_v = int i + 1;
          score_v = (if i < length scoring_values then scoring_values ! i else 0);
          a' = a\<lparr>rank := Some rank_v, score := Some score_v\<rparr>;
          answers_scored' = (if score_v > 0 then answers_scored + 1 else answers_scored)
      in case rank_loop scoring_values (i + 1) rest (answers_ranked + 1) answers_scored' of
           (out, r, s) \<Rightarrow> (a' # out, r, s))"

text \<open>
  \<^verbatim>\<open>correct_answers.sort(key=..., reverse=True)\<close> is a stable sort in descending
  order of the key: answers with equal keys stay in their input order. \<open>sort_key\<close> is
  stable and ascending, so the key is negated.
\<close>

definition rank_correct_answers ::
  "int list \<Rightarrow> 'a answer_record_scheme list \<Rightarrow> 'a answer_record_scheme list \<times> nat \<times> nat" where
  "rank_correct_answers scoring_values correct_answers =
     (if correct_answers = [] then ([], 0, 0)
      else rank_loop scoring_values 0
             (sort_key (\<lambda>x. - get_or (responseCount x) 0) correct_answers) 0 0)"

definition reset_incorrect_answers ::
  "'a answer_record_scheme list \<Rightarrow> 'a answer_record_scheme list" where
  "reset_incorrect_answers incorrect_answers =
     map (\<lambda>a. a\<lparr>rank := Some 0, score := Some 0\<rparr>) incorrect_answers"

definition rank_answers ::
  "int list \<Rightarrow> 'a answer_record_scheme list \<Rightarrow> 'a answer_record_scheme list \<times> nat \<times> nat" where
  "rank_answers scoring_values answers =
     (if answers = [] then (answers, 0, 0)
      else case separate_answers answers of (correct_answers, incorrect_answers) \<Rightarrow>
        (case rank_correct_answers scoring_values correct_answers of
           (ranked_correct, answers_ranked, answers_scored) \<Rightarrow>
             (ranked_correct @ reset_incorrect_answers incorrect_answers,
              answers_ranked, answers_scored)))"


section \<open>Questions and final records\<close>

text \<open>
  A question, a prepared final record and a record of the remote final collection are all
  dictionaries with the same keys. \<open>qid\<close> is the key \<^verbatim>\<open>_id\<close> and \<open>existing_id\<close> the
  key \<^verbatim>\<open>_existing_id\<close> (an identifier cannot start with an underscore here).
\<close>

record question_record =
  qid :: "string option"
  question :: "string option"
  questionType :: "string option"
  questionCategory :: "string option"
  questionLevel :: "string option"
  timesSkipped :: "int option"
  timesAnswered :: "int option"
  answers :: "answer_record list option"
  existing_id :: "string option"

section \<open>Eligibility and preparation rules (database/db\_handler.py)\<close>

text \<open>
  The filter of \<^verbatim>\<open>_prepare_input_question_for_final\<close>:
  \<^verbatim>\<open>answer.get('isCorrect') is True and answer.get('rank', 0) > 0 and answer.get('score', 0) > 0\<close>.
\<close>

definition input_qualifies :: "'a answer_record_scheme \<Rightarrow> bool" where
  "input_qualifies a =
     (isCorrect a = Some True \<and> get_or (rank a) 0 > 0 \<and> get_or (score a) 0 > 0)"

definition input_final_answer :: "'a answer_record_scheme \<Rightarrow> answer_record" where
  "input_final_answer a =
     \<lparr>answer = Some (strip (get_or (answer a) [])),
      isCorrect = Some True,
      responseCount = Some (get_or (responseCount a) 0),
      rank = Some (get_or (rank a) 0),
      score = Some (get_or (score a) 0)\<rparr>"

text \<open>
  The formatting loop over the top three answers; it returns \<^verbatim>\<open>(False, [])\<close> as soon
  as one formatted text is empty.
\<close>

fun input_final_loop ::
  "'a answer_record_scheme list \<Rightarrow> answer_record list \<Rightarrow> bool \<times> answer_record list" where
  "input_final_loop [] final_answers = (True, final_answers)"
| "input_final_loop (a # rest) final_answers =
     (let final_answer = input_final_answer a
      in if get_or (answer final_answer) [] = [] then (False, [])
         else input_final_loop rest (final_answers @ [final_answer]))"

definition prepare_input_question_for_final ::
  "string \<Rightarrow> 'a answer_record_scheme list \<Rightarrow> bool \<times> answer_record list" where
  "prepare_input_question_for_final question_id all_answers =
     (let correct_answers = filter input_qualifies all_answers
      in if length correct_answers < 3 then (False, [])
         else let top_3_answers = take 3 (sort_key (\<lambda>x. get_or (rank x) 999) correct_answers)
              in input_final_loop top_3_answers [])"

definition mcq_final_answer :: "'a answer_record_scheme \<Rightarrow> answer_record" where
  "mcq_final_answer a =
     \<lparr>answer = Some (strip (get_or (answer a) [])),
      isCorrect = Some (get_or (isCorrect a) False),
      responseCount = Some (get_or (responseCount a) 0),
      rank = Some (get_or (rank a) 0),
      score = Some (get_or (score a) 0)\<rparr>"

text \<open>
  The loop that collects the lower-cased trimmed texts; \<open>None\<close> is its early return on
  an empty text.
\<close>

fun mcq_text_loop :: "'a answer_record_scheme list \<Rightarrow> string list \<Rightarrow> string list option" where
  "mcq_text_loop [] answer_texts = Some answer_texts"
| "mcq_text_loop (a # rest) answer_texts =
     (let answer_text = strip (get_or (answer a) [])
      in if answer_text = [] then None
         else mcq_text_loop rest (answer_texts @ [lower answer_text]))"

definition prepare_mcq_question_for_final ::
  "string \<Rightarrow> 'a answer_record_scheme list \<Rightarrow> bool \<times> answer_record list" where
  "prepare_mcq_question_for_final question_id all_answers =
     (if length all_answers \<noteq> 4 then (False, [])
      else let correct_answers = filter (\<lambda>a. isCorrect a = Some True) all_answers
           in if length correct_answers \<noteq> 1 then (False, [])
              else case mcq_text_loop all_answers [] of
                     None \<Rightarrow> (False, [])
                   | Some answer_texts \<Rightarrow>
                       if card (set answer_texts) \<noteq> length answer_texts then (False, [])
                       else (True, map mcq_final_answer all_answers))"

definition validate_and_prepare_answers_for_final ::
  "'q question_record_scheme \<Rightarrow> string \<Rightarrow> string \<Rightarrow> bool \<times> answer_record list" where
  "validate_and_prepare_answers_for_final q question_id question_type =
     (let all_answers = get_or (answers q) []
      in if question_type = ''input'' then prepare_input_question_for_final question_id all_answers
         else if question_type = ''mcq'' then prepare_mcq_question_for_final question_id all_answers
         else (False, []))"

definition final_question :: "'q question_record_scheme \<Rightarrow> answer_record list \<Rightarrow> question_record" where
  "final_question q final_answers =
     \<lparr>qid = None,
      question = Some (get_or (question q) []),
      questionType = Some (get_or (questionType q) []),
      questionCategory = Some (get_or (questionCategory q) []),
      questionLevel = Some (get_or (questionLevel q) []),
      timesSkipped = Some (get_or (timesSkipped q) 0),
      timesAnswered = Some (get_or (timesAnswered q) 0),
      answers = Some final_answers,
      existing_id = None\<rparr>"

text \<open>
  The loop of \<^verbatim>\<open>_prepare_questions_for_final_submission\<close>. \<open>get_question_id\<close> is
  \<^verbatim>\<open>QuestionFormatter.get_question_id\<close>, a helper outside these sources whose result
  only reaches log messages; it is a parameter. \<^verbatim>\<open>not question.get('answers')\<close> holds
  for a missing key and for an empty list.
\<close>

fun prepare_questions_for_final_submission ::
  "('q question_record_scheme \<Rightarrow> string) \<Rightarrow> 'q question_record_scheme list \<Rightarrow> question_record list" where
  "prepare_questions_for_final_submission get_question_id [] = []"
| "prepare_questions_for_final_submission get_question_id (q # rest) =
     (let question_id = get_question_id q;
          question_type = lower (get_or (questionType q) [])
      in if question_type \<noteq> ''input''
         then prepare_questions_for_final_submission get_question_id rest
         else if get_or (answers q) [] = []
         then prepare_questions_for_final_submission get_question_id rest
         else case validate_and_prepare_answers_for_final q question_id question_type of
                (should_include, final_answers) \<Rightarrow>
                  if should_include \<and> final_answers \<noteq> []
                  then final_question q final_answers
                         # prepare_questions_for_final_submission get_question_id rest
                  else prepare_questions_for_final_submission get_question_id rest)"


section \<open>Reconciliation engine (database/db\_handler.py)\<close>

text \<open>The key of a record: \<^verbatim>\<open>d.get('question', '').strip().lower()\<close>.\<close>

definition question_key :: "'q question_record_scheme \<Rightarrow> string" where
  "question_key q = lower (strip (get_or (question q) []))"

text \<open>
  The dictionary \<^verbatim>\<open>existing_lookup\<close>, filled in the order of the remote list: a later
  record with the same key replaces an earlier one, a record with an empty key is not
  entered.
\<close>

definition existing_lookup ::
  "'q question_record_scheme list \<Rightarrow> (string \<rightharpoonup> 'q question_record_scheme)" where
  "existing_lookup existing_final_questions =
     fold (\<lambda>existing lookup.
             let question_text = question_key existing
             in if question_text \<noteq> [] then lookup(question_text \<mapsto> existing) else lookup)
          existing_final_questions Map.empty"

text \<open>
  \<^verbatim>\<open>normalize_answer_for_comparison\<close> builds a dictionary with five keys; it is the
  tuple (answer, isCorrect, rank, score, responseCount). The sort key is
  \<^verbatim>\<open>(x['answer'], x['rank'])\<close>, compared as Python compares tuples and strings:
  lexicographically, characters by code point.
\<close>

type_synonym normalized_answer = "string \<times> bool \<times> int \<times> int \<times> int"

definition normalize_answer_for_comparison :: "'a answer_record_scheme \<Rightarrow> normalized_answer" where
  "normalize_answer_for_comparison a =
     (lower (strip (get_or (answer a) [])),
      get_or (isCorrect a) False,
      get_or (rank a) 0,
      get_or (score a) 0,
      get_or (responseCount a) 0)"

definition comparison_key :: "normalized_answer \<Rightarrow> string \<times> int" where
  "comparison_key x = (case x of (text, c, r, s, n) \<Rightarrow> (text, r))"

definition answers_have_changed ::
  "'p question_record_scheme \<Rightarrow> 'q question_record_scheme \<Rightarrow> bool" where
  "answers_have_changed new_question existing_question =
     (let new_answers = get_or (answers new_question) [];
          existing_answers = get_or (answers existing_question) []
      in if length new_answers \<noteq> length existing_answers then True
         else let new_normalized =
                    sort_key comparison_key (map normalize_answer_for_comparison new_answers);
                  existing_normalized =
                    sort_key comparison_key (map normalize_answer_for_comparison existing_answers)
              in if new_normalized \<noteq> existing_normalized then True else False)"

text \<open>
  The second loop of \<^verbatim>\<open>_categorize_questions_for_submission\<close>, with the three result
  lists as accumulators. A changed record gets the remote record's \<^verbatim>\<open>_id\<close> as its
  \<^verbatim>\<open>_existing_id\<close>.
\<close>

fun categorize_loop ::
  "(string \<rightharpoonup> 'q question_record_scheme) \<Rightarrow> question_record list
     \<Rightarrow> question_record list \<times> question_record list \<times> question_record list
     \<Rightarrow> question_record list \<times> question_record list \<times> question_record list" where
  "categorize_loop lookup [] acc = acc"
| "categorize_loop lookup (q # rest) (new_questions, updated_questions, unchanged_questions) =
     (let question_text = question_key q
      in case lookup question_text of
           Some existing_question \<Rightarrow>
             if answers_have_changed q existing_question
             then categorize_loop lookup rest
                    (new_questions,
                     updated_questions @ [q\<lparr>existing_id := qid existing_question\<rparr>],
                     unchanged_questions)
             else categorize_loop lookup rest
                    (new_questions, updated_questions, unchanged_questions @ [q])
         | None \<Rightarrow>
             categorize_loop lookup rest
               (new_questions @ [q], updated_questions, unchanged_questions))"

definition categorize_questions_for_submission ::
  "question_record list \<Rightarrow> 'q question_record_scheme list
     \<Rightarrow> question_record list \<times> question_record list \<times> question_record list" where
  "categorize_questions_for_submission final_questions existing_final_questions =
     categorize_loop (existing_lookup existing_final_questions) final_questions ([], [], [])"

section \<open>Final submission (database/db\_handler.py)\<close>

text \<open>
  The remote store is reached through \<^verbatim>\<open>APIHandler.make_request\<close>, which is outside
  these sources. It is a parameter \<open>api\<close>: a function from the store's state and a
  request to an outcome and the next state. An outcome is either an exception or a
  response, of which the code reads two things through \<^verbatim>\<open>ResponseProcessor\<close>:
  whether it is a success, and the questions it carries (\<open>None\<close> when extracting them
  raises). The \<open>world\<close> is the store's state together with the list of the requests made
  so far, oldest first.
\<close>

datatype http_method = GET | POST | PUT | PATCH

datatype request = Request http_method string "question_record list option"

datatype outcome = Raised | Response bool "question_record list option"

record 's world =
  server :: 's
  requests :: "request list"

definition make_request ::
  "('s \<Rightarrow> request \<Rightarrow> outcome \<times> 's) \<Rightarrow> 's world \<Rightarrow> request \<Rightarrow> outcome \<times> 's world" where
  "make_request api w req =
     (case api (server w) req of
        (out, s') \<Rightarrow> (out, w\<lparr>server := s', requests := requests w @ [req]\<rparr>))"

definition final_endpoint :: string where
  "final_endpoint = ''/api/v1/admin/survey/final''"

text \<open>
  The result dictionaries, without their message texts: \<open>total_processed\<close> and
  \<open>details\<close> are keys that only some results have, \<open>details\<close> holds the numbers of
  new, updated and unchanged records, \<open>has_error\<close> says that the key \<^verbatim>\<open>error\<close> is
  present.
\<close>

record submission_result =
  submitted_count :: nat
  total_processed :: "nat option"
  success :: bool
  details :: "(nat \<times> nat \<times> nat) option"
  has_error :: bool

definition get_existing_final_questions ::
  "('s \<Rightarrow> request \<Rightarrow> outcome \<times> 's) \<Rightarrow> 's world \<Rightarrow> question_record list option \<times> 's world" where
  "get_existing_final_questions api w =
     (case make_request api w (Request GET final_endpoint None) of
        (Raised, w') \<Rightarrow> (None, w')
      | (Response ok existing_questions, w') \<Rightarrow>
          (if ok then existing_questions else None, w'))"

text \<open>
  \<^verbatim>\<open>_submit_new_final_questions\<close> does not catch: \<open>None\<close> is the exception of the
  request, which the caller's handler receives.
\<close>

definition submit_new_final_questions ::
  "('s \<Rightarrow> request \<Rightarrow> outcome \<times> 's) \<Rightarrow> 's world \<Rightarrow> question_record list
     \<Rightarrow> submission_result option \<times> 's world" where
  "submit_new_final_questions api w new_questions =
     (case make_request api w (Request POST final_endpoint (Some new_questions)) of
        (Raised, w') \<Rightarrow> (None, w')
      | (Response ok qs, w') \<Rightarrow>
          (Some (if ok
                 then \<lparr>submitted_count = length new_questions, total_processed = None,
                       success = True, details = None, has_error = False\<rparr>
                 else \<lparr>submitted_count = 0, total_processed = None,
                       success = False, details = None, has_error = False\<rparr>), w'))"

text \<open>
  \<^verbatim>\<open>_update_single_final_question\<close> tries the record's own endpoint and then the
  collection's, each with PUT and then PATCH, until one request succeeds; an exception of
  a request is caught and the next one is tried.
\<close>

fun try_update_requests ::
  "('s \<Rightarrow> request \<Rightarrow> outcome \<times> 's) \<Rightarrow> 's world \<Rightarrow> (string \<times> http_method) list
     \<Rightarrow> question_record list \<Rightarrow> bool \<times> 's world" where
  "try_update_requests api w [] update_payload = (False, w)"
| "try_update_requests api w ((endpoint, m) # rest) update_payload =
     (case make_request api w (Request m endpoint (Some update_payload)) of
        (Response True qs, w') \<Rightarrow> (True, w')
      | (other, w') \<Rightarrow> try_update_requests api w' rest update_payload)"

definition update_single_final_question ::
  "('s \<Rightarrow> request \<Rightarrow> outcome \<times> 's) \<Rightarrow> 's world \<Rightarrow> string \<Rightarrow> question_record list
     \<Rightarrow> bool \<times> 's world" where
  "update_single_final_question api w question_id update_payload =
     try_update_requests api w
       [(final_endpoint @ ''/'' @ question_id, PUT), (final_endpoint @ ''/'' @ question_id, PATCH),
        (final_endpoint, PUT), (final_endpoint, PATCH)]
       update_payload"

text \<open>
  The loop of \<^verbatim>\<open>_update_existing_final_questions\<close>; a record whose
  \<^verbatim>\<open>_existing_id\<close> is missing, \<^verbatim>\<open>None\<close> or empty is passed over.
\<close>

fun update_loop ::
  "('s \<Rightarrow> request \<Rightarrow> outcome \<times> 's) \<Rightarrow> 's world \<Rightarrow> question_record list \<Rightarrow> nat
     \<Rightarrow> nat \<times> 's world" where
  "update_loop api w [] successful_updates = (successful_updates, w)"
| "update_loop api w (q # rest) successful_updates =
     (let question_id = get_or (existing_id q) []
      in if question_id = [] then update_loop api w rest successful_updates
         else case update_single_final_question api w question_id [q] of
                (ok, w') \<Rightarrow>
                  update_loop api w' rest
                    (if ok then successful_updates + 1 else successful_updates))"

definition update_existing_final_questions ::
  "('s \<Rightarrow> request \<Rightarrow> outcome \<times> 's) \<Rightarrow> 's world \<Rightarrow> question_record list
     \<Rightarrow> submission_result \<times> 's world" where
  "update_existing_final_questions api w updated_questions =
     (case update_loop api w updated_questions 0 of
        (successful_updates, w') \<Rightarrow>
          (\<lparr>submitted_count = successful_updates, total_processed = None,
            success = (successful_updates > 0), details = None, has_error = False\<rparr>, w'))"

text \<open>The dictionary returned by an \<^verbatim>\<open>except\<close> branch.\<close>

definition error_result :: "nat \<Rightarrow> submission_result" where
  "error_result n =
     \<lparr>submitted_count = 0, total_processed = Some n, success = False, details = None,
      has_error = True\<rparr>"

definition handle_final_submission_with_updates ::
  "('s \<Rightarrow> request \<Rightarrow> outcome \<times> 's) \<Rightarrow> 's world \<Rightarrow> question_record list
     \<Rightarrow> submission_result \<times> 's world" where
  "handle_final_submission_with_updates api w final_questions =
     (case get_existing_final_questions api w of
        (None, w1) \<Rightarrow>
          (case submit_new_final_questions api w1 final_questions of
             (None, w2) \<Rightarrow> (error_result (length final_questions), w2)
           | (Some r, w2) \<Rightarrow> (r, w2))
      | (Some existing_final_questions, w1) \<Rightarrow>
          (case categorize_questions_for_submission final_questions existing_final_questions of
             (new_questions, updated_questions, unchanged_questions) \<Rightarrow>
               (case (if new_questions \<noteq> []
                      then (case submit_new_final_questions api w1 new_questions of
                              (None, w2) \<Rightarrow> (None, w2)
                            | (Some new_result, w2) \<Rightarrow>
                                (Some (if success new_result
                                       then submitted_count new_result else 0), w2))
                      else (Some 0, w1)) of
                  (None, w2) \<Rightarrow> (error_result (length final_questions), w2)
                | (Some submitted_new, w2) \<Rightarrow>
                    (case (if updated_questions \<noteq> []
                           then (case update_existing_final_questions api w2 updated_questions of
                                   (update_result, w3) \<Rightarrow>
                                     (if success update_result
                                      then submitted_new + submitted_count update_result
                                      else submitted_new, w3))
                           else (submitted_new, w2)) of
                       (total_submitted, w3) \<Rightarrow>
                         (\<lparr>submitted_count = total_submitted,
                           total_processed = Some (length final_questions),
                           success = (total_submitted > 0 \<or> length unchanged_questions > 0),
                           details = Some (length new_questions, length updated_questions,
                                           length unchanged_questions),
                           has_error = False\<rparr>, w3)))))"

definition submit_final_questions ::
  "('q question_record_scheme \<Rightarrow> string) \<Rightarrow> ('s \<Rightarrow> request \<Rightarrow> outcome \<times> 's) \<Rightarrow> 's world
     \<Rightarrow> 'q question_record_scheme list \<Rightarrow> submission_result \<times> 's world" where
  "submit_final_questions get_question_id api w questions =
     (let final_questions = prepare_questions_for_final_submission get_question_id questions
      in if final_questions = []
         then (\<lparr>submitted_count = 0, total_processed = Some (length questions),
                success = False, details = None, has_error = False\<rparr>, w)
         else handle_final_submission_with_updates api w final_questions)"


section \<open>Notions of the specification\<close>

text \<open>
  The definitions of this section are not translations of code: they name what the
  properties below speak about.
\<close>

text \<open>The part of an answer record that ranking does not write.\<close>

definition forget_ranking :: "'a answer_record_scheme \<Rightarrow> 'a answer_record_scheme" where
  "forget_ranking a = a\<lparr>rank := None, score := None\<rparr>"

text \<open>The score of the scoring table for position \<open>i\<close>, counted from 0: 0 beyond the table.\<close>

definition table_score :: "int list \<Rightarrow> nat \<Rightarrow> int" where
  "table_score sv i = (if i < length sv then sv ! i else 0)"

text \<open>Answers in descending order of response count, equal counts in input order.\<close>

definition by_count :: "'a answer_record_scheme list \<Rightarrow> 'a answer_record_scheme list" where
  "by_count xs = sort_key (\<lambda>x. - get_or (responseCount x) 0) xs"



text \<open>
  The three best qualifying answers of an Input question by ascending rank, and the
  eligibility of the question.
\<close>

definition input_top_3 :: "'a answer_record_scheme list \<Rightarrow> 'a answer_record_scheme list" where
  "input_top_3 all_answers =
     take 3 (sort_key (\<lambda>x. get_or (rank x) 0) (filter input_qualifies all_answers))"

definition input_eligible :: "'a answer_record_scheme list \<Rightarrow> bool" where
  "input_eligible all_answers =
     (3 \<le> length (filter input_qualifies all_answers) \<and>
      list_all (\<lambda>a. strip (get_or (answer a) []) \<noteq> []) (input_top_3 all_answers))"

text \<open>The conditions of the MCQ rule.\<close>

definition mcq_eligible :: "'a answer_record_scheme list \<Rightarrow> bool" where
  "mcq_eligible all_answers =
     (length all_answers = 4 \<and>
      length (filter (\<lambda>a. isCorrect a = Some True) all_answers) = 1 \<and>
      list_all (\<lambda>a. strip (get_or (answer a) []) \<noteq> []) all_answers \<and>
      distinct (map (\<lambda>a. lower (strip (get_or (answer a) []))) all_answers))"

text \<open>
  The three buckets of reconciliation. A local record is new when the lookup has no
  entry for its key, changed when the entry's answers differ under the normalized
  comparison, unchanged otherwise; \<open>remote_id\<close> is the identifier of the entry.
  \<open>empty_text\<close>: the question text is empty after trimming.
\<close>

datatype bucket = New | Changed | Unchanged

definition bucket_of :: "(string \<rightharpoonup> 'q question_record_scheme) \<Rightarrow> question_record \<Rightarrow> bucket" where
  "bucket_of lookup q =
     (case lookup (question_key q) of
        None \<Rightarrow> New
      | Some e \<Rightarrow> if answers_have_changed q e then Changed else Unchanged)"

definition remote_id :: "(string \<rightharpoonup> 'q question_record_scheme) \<Rightarrow> question_record \<Rightarrow> string option" where
  "remote_id lookup q = (case lookup (question_key q) of None \<Rightarrow> None | Some e \<Rightarrow> qid e)"

definition classify :: "'q question_record_scheme list \<Rightarrow> question_record \<Rightarrow> bucket" where
  "classify existing q = bucket_of (existing_lookup existing) q"

definition empty_text :: "'q question_record_scheme \<Rightarrow> bool" where
  "empty_text q = (strip (get_or (question q) []) = [])"

text \<open>
  Two answer lists that differ at most in the order of the answers and in the case and
  the outer whitespace of the texts: their normalized answers are the same multiset.
  \<open>keys_decide\<close>: among the normalized answers of a list, the sort key (text, rank)
  determines the answer.
\<close>

definition same_up_to_order_and_text ::
  "'a answer_record_scheme list \<Rightarrow> 'b answer_record_scheme list \<Rightarrow> bool" where
  "same_up_to_order_and_text xs ys =
     (mset (map normalize_answer_for_comparison xs) = mset (map normalize_answer_for_comparison ys))"

definition keys_decide :: "'a answer_record_scheme list \<Rightarrow> bool" where
  "keys_decide xs = inj_on comparison_key (set (map normalize_answer_for_comparison xs))"

text \<open>
  A local record has a counterpart when some remote record has the same key and answers
  that compare equal. The remote keys are unique when two remote records with one key are
  one and the same record.
\<close>

definition has_counterpart :: "'q question_record_scheme list \<Rightarrow> question_record \<Rightarrow> bool" where
  "has_counterpart existing l =
     list_ex (\<lambda>r. question_key r = question_key l \<and> \<not> answers_have_changed l r) existing"

definition remote_keys_unique :: "'q question_record_scheme list \<Rightarrow> bool" where
  "remote_keys_unique existing =
     list_all (\<lambda>r. list_all (\<lambda>r'. question_key r = question_key r' \<longrightarrow> r = r') existing) existing"

text \<open>The request that fetches the final collection.\<close>

definition get_request :: request where
  "get_request = Request GET final_endpoint None"

text \<open>The result of a submission in which all \<open>n\<close> records are unchanged.\<close>

definition unchanged_result :: "nat \<Rightarrow> submission_result" where
  "unchanged_result n =
     \<lparr>submitted_count = 0, total_processed = Some n, success = (n > 0),
      details = Some (0, 0, n), has_error = False\<rparr>"

section \<open>Example data\<close>

text \<open>
  The scenario of the specification: one question with four correct answers with response
  counts 7, 10, 7 and 2 (in this input order), and the scoring table 100, 80, 60.
  \<open>mixed_answers\<close> adds an incorrect answer that arrives with a rank and a score.
\<close>

definition scenario_answers :: "answer_record list" where
  "scenario_answers =
     [\<lparr>answer = Some ''paris'', isCorrect = Some True, responseCount = Some 7, rank = None, score = None\<rparr>,
      \<lparr>answer = Some ''lyon'', isCorrect = Some True, responseCount = Some 10, rank = None, score = None\<rparr>,
      \<lparr>answer = Some ''nice'', isCorrect = Some True, responseCount = Some 7, rank = None, score = None\<rparr>,
      \<lparr>answer = Some ''metz'', isCorrect = Some True, responseCount = Some 2, rank = None, score = None\<rparr>]"


definition mixed_answers :: "answer_record list" where
  "mixed_answers =
     [\<lparr>answer = Some ''paris'', isCorrect = Some True, responseCount = Some 7, rank = None, score = None\<rparr>,
      \<lparr>answer = Some ''rome'', isCorrect = Some False, responseCount = Some 70, rank = Some 4, score = Some 3\<rparr>,
      \<lparr>answer = Some ''lyon'', isCorrect = Some True, responseCount = Some 10, rank = None, score = None\<rparr>,
      \<lparr>answer = Some ''nice'', isCorrect = Some True, responseCount = Some 7, rank = None, score = None\<rparr>,
      \<lparr>answer = Some ''metz'', isCorrect = Some True, responseCount = Some 2, rank = None, score = None\<rparr>]"

text \<open>The answers of the scenario after ranking.\<close>

definition scenario_ranked_answers :: "answer_record list" where
  "scenario_ranked_answers = fst (rank_answers [100, 80, 60] scenario_answers)"

text \<open>An MCQ question that meets every condition of the MCQ rule.\<close>

definition mcq_question :: question_record where
  "mcq_question =
     \<lparr>qid = Some ''q7'', question = Some ''Capital of France?'', questionType = Some ''MCQ'',
      questionCategory = Some ''geo'', questionLevel = Some ''easy'',
      timesSkipped = Some 0, timesAnswered = Some 12,
      answers = Some
        [\<lparr>answer = Some ''Paris'', isCorrect = Some True, responseCount = Some 9, rank = Some 1, score = Some 100\<rparr>,
         \<lparr>answer = Some ''Rome'', isCorrect = Some False, responseCount = Some 1, rank = Some 0, score = Some 0\<rparr>,
         \<lparr>answer = Some ''Oslo'', isCorrect = Some False, responseCount = Some 1, rank = Some 0, score = Some 0\<rparr>,
         \<lparr>answer = Some '' Bern '', isCorrect = Some False, responseCount = Some 1, rank = Some 0, score = Some 0\<rparr>],
      existing_id = None\<rparr>"

text \<open>
  Final records for reconciliation: three local records, and two remote ones, the first
  with the answers of the first local record in another order and spelling, the second
  with another score. \<open>tied_answers\<close> are two answers with one text and one rank and
  different scores. \<open>blank_local\<close> and \<open>blank_remote\<close> have no question text.
\<close>

definition example_record :: "string option \<Rightarrow> string \<Rightarrow> answer_record list \<Rightarrow> question_record" where
  "example_record ident text ans =
     \<lparr>qid = ident, question = Some text, questionType = Some ''Input'',
      questionCategory = Some ''geo'', questionLevel = Some ''easy'',
      timesSkipped = Some 0, timesAnswered = Some 5, answers = Some ans, existing_id = None\<rparr>"

definition local_answers :: "answer_record list" where
  "local_answers =
     [\<lparr>answer = Some ''lyon'', isCorrect = Some True, responseCount = Some 10, rank = Some 1, score = Some 100\<rparr>,
      \<lparr>answer = Some ''paris'', isCorrect = Some True, responseCount = Some 7, rank = Some 2, score = Some 80\<rparr>,
      \<lparr>answer = Some ''nice'', isCorrect = Some True, responseCount = Some 7, rank = Some 3, score = Some 60\<rparr>]"

definition remote_answers_reordered :: "answer_record list" where
  "remote_answers_reordered =
     [\<lparr>answer = Some '' Nice'', isCorrect = Some True, responseCount = Some 7, rank = Some 3, score = Some 60\<rparr>,
      \<lparr>answer = Some ''PARIS'', isCorrect = Some True, responseCount = Some 7, rank = Some 2, score = Some 80\<rparr>,
      \<lparr>answer = Some ''Lyon  '', isCorrect = Some True, responseCount = Some 10, rank = Some 1, score = Some 100\<rparr>]"

definition remote_answers_rescored :: "answer_record list" where
  "remote_answers_rescored =
     [\<lparr>answer = Some ''lyon'', isCorrect = Some True, responseCount = Some 10, rank = Some 1, score = Some 100\<rparr>,
      \<lparr>answer = Some ''paris'', isCorrect = Some True, responseCount = Some 7, rank = Some 2, score = Some 70\<rparr>,
      \<lparr>answer = Some ''nice'', isCorrect = Some True, responseCount = Some 7, rank = Some 3, score = Some 60\<rparr>]"

definition local_questions :: "question_record list" where
  "local_questions =
     [example_record None ''Cities of France?'' local_answers,
      example_record None ''Towns?'' local_answers,
      example_record None ''Lakes?'' local_answers]"

definition remote_questions :: "question_record list" where
  "remote_questions =
     [example_record (Some ''r1'') ''  cities of FRANCE? '' remote_answers_reordered,
      example_record (Some ''r2'') ''towns?'' remote_answers_rescored]"

definition tied_answers :: "answer_record list" where
  "tied_answers =
     [\<lparr>answer = Some ''lyon'', isCorrect = Some True, responseCount = Some 10, rank = Some 1, score = Some 100\<rparr>,
      \<lparr>answer = Some ''lyon'', isCorrect = Some True, responseCount = Some 10, rank = Some 1, score = Some 80\<rparr>]"

definition blank_local :: question_record where
  "blank_local = example_record None ''   '' local_answers"

definition blank_remote :: question_record where
  "blank_remote = example_record (Some ''r9'') [] local_answers"

text \<open>
  Two stores. \<open>store_api\<close> keeps a list of final records: it answers a fetch with the
  list, appends what is created and accepts every update. \<open>down_api\<close> raises on a
  fetch and accepts everything else.
\<close>

definition store_api :: "question_record list \<Rightarrow> request \<Rightarrow> outcome \<times> question_record list" where
  "store_api st req =
     (case req of
        Request GET e p \<Rightarrow> (Response True (Some st), st)
      | Request POST e p \<Rightarrow> (Response True None, st @ get_or p [])
      | Request m e p \<Rightarrow> (Response True None, st))"

definition down_api :: "unit \<Rightarrow> request \<Rightarrow> outcome \<times> unit" where
  "down_api st req = (case req of Request GET e p \<Rightarrow> (Raised, ()) | Request m e p \<Rightarrow> (Response True None, ()))"

text \<open>
  A local record with its remote counterpart, and a remote collection in which a second
  record has the same key and other answers.
\<close>

definition cities_local :: question_record where
  "cities_local = example_record None ''Cities of France?'' local_answers"

definition cities_remote :: question_record where
  "cities_remote = example_record (Some ''r1'') ''  cities of FRANCE? '' remote_answers_reordered"

definition remote_collision :: "question_record list" where
  "remote_collision =
     [cities_remote, example_record (Some ''r3'') ''Cities of France?'' remote_answers_rescored]"

section \<open>The answer ranker: proofs\<close>

lemma rank_loop_out:
  "fst (rank_loop sv i xs r s) =
     map (\<lambda>(j, a). a\<lparr>rank := Some (int j + 1), score := Some (table_score sv j)\<rparr>)
         (zip [i..<i + length xs] xs)"
proof (induction xs arbitrary: i r s)
  case Nil
  show ?case by simp
next
  case (Cons a xs)
  have u: "[i..<i + length (a # xs)] = i # [Suc i..<Suc i + length xs]"
    by (simp add: upt_rec)
  show ?case
    by (simp only: u) (simp add: Cons.IH Let_def table_score_def split_beta)
qed

lemma rank_loop_ranked: "fst (snd (rank_loop sv i xs r s)) = r + length xs"
  by (induction xs arbitrary: i r s) (simp_all add: Let_def split_beta)

lemma rank_loop_scored:
  "snd (snd (rank_loop sv i xs r s)) =
     s + length (filter (\<lambda>a. 0 < get_or (score a) 0) (fst (rank_loop sv i xs r s)))"
  by (induction xs arbitrary: i r s) (simp_all add: Let_def get_or_def split_beta)

lemma rank_loop_length: "length (fst (rank_loop sv i xs r s)) = length xs"
  by (simp add: rank_loop_out)

lemma rank_loop_nth:
  "j < length xs \<Longrightarrow>
   fst (rank_loop sv i xs r s) ! j =
     (xs ! j)\<lparr>rank := Some (int (i + j) + 1), score := Some (table_score sv (i + j))\<rparr>"
  by (simp add: rank_loop_out)

lemma rank_loop_forget: "map forget_ranking (fst (rank_loop sv i xs r s)) = map forget_ranking xs"
  by (rule nth_equalityI) (simp_all add: rank_loop_length rank_loop_nth forget_ranking_def)


lemma rank_answers_unfold:
  "rank_answers sv ans =
     (fst (rank_loop sv 0 (by_count (filter is_correct ans)) 0 0)
        @ reset_incorrect_answers (filter (\<lambda>a. \<not> is_correct a) ans),
      length (filter is_correct ans),
      length (filter (\<lambda>a. 0 < get_or (score a) 0)
                (fst (rank_loop sv 0 (by_count (filter is_correct ans)) 0 0))))"
proof -
  let ?S = "by_count (filter is_correct ans)"
  obtain R nr ns where e: "rank_loop sv 0 ?S 0 0 = (R, nr, ns)"
    by (cases "rank_loop sv 0 ?S 0 0") blast
  have nr: "nr = length (filter is_correct ans)"
    using rank_loop_ranked [of sv 0 ?S 0 0] unfolding e by (simp add: by_count_def)
  have ns: "ns = length (filter (\<lambda>a. 0 < get_or (score a) 0) R)"
    using rank_loop_scored [of sv 0 ?S 0 0] unfolding e by simp
  have R: "fst (rank_loop sv 0 ?S 0 0) = R"
    unfolding e by simp
  show ?thesis
  proof (cases "filter is_correct ans = []")
    case True
    then show ?thesis
      by (simp add: rank_answers_def separate_answers_def rank_correct_answers_def by_count_def
          reset_incorrect_answers_def)
  next
    case False
    then have ne: "ans \<noteq> []" by auto
    have "rank_correct_answers sv (filter is_correct ans) = (R, nr, ns)"
      using False e by (simp add: rank_correct_answers_def by_count_def)
    then show ?thesis
      unfolding R by (simp add: rank_answers_def separate_answers_def ne nr ns)
  qed
qed


lemma rank_loop_is_correct:
  "map is_correct (fst (rank_loop sv i xs r s)) = map is_correct xs"
  by (rule nth_equalityI) (simp_all add: rank_loop_length rank_loop_nth is_correct_def)

lemma ranked_correct:
  assumes "\<forall>a\<in>set xs. is_correct a"
  shows "\<forall>a\<in>set (fst (rank_loop sv i xs r s)). is_correct a"
proof -
  have "set (map is_correct (fst (rank_loop sv i xs r s))) \<subseteq> {True}"
    unfolding rank_loop_is_correct using assms by auto
  then show ?thesis by auto
qed

lemma reset_incorrect:
  assumes "\<forall>a\<in>set xs. \<not> is_correct a"
  shows "\<forall>a\<in>set (reset_incorrect_answers xs). \<not> is_correct a \<and> rank a = Some 0 \<and> score a = Some 0"
  using assms by (auto simp: reset_incorrect_answers_def is_correct_def)

lemma reset_incorrect_filter:
  "\<forall>a\<in>set (reset_incorrect_answers (filter (\<lambda>a. \<not> is_correct a) ans)).
     \<not> is_correct a \<and> rank a = Some 0 \<and> score a = Some 0"
proof (rule reset_incorrect)
  show "\<forall>a\<in>set (filter (\<lambda>a. \<not> is_correct a) ans). \<not> is_correct a"
    by simp
qed

lemma by_count_set: "set (by_count xs) = set xs"
  by (simp add: by_count_def)

lemma filter_out_correct:
  "filter is_correct (fst (rank_answers sv ans)) =
     fst (rank_loop sv 0 (by_count (filter is_correct ans)) 0 0)"
proof -
  have a: "\<forall>a\<in>set (fst (rank_loop sv 0 (by_count (filter is_correct ans)) 0 0)). is_correct a"
    by (rule ranked_correct) (simp add: by_count_set)
  have b: "\<forall>a\<in>set (reset_incorrect_answers (filter (\<lambda>a. \<not> is_correct a) ans)). \<not> is_correct a"
    using reset_incorrect_filter [of ans] by blast
  have "filter is_correct (fst (rank_loop sv 0 (by_count (filter is_correct ans)) 0 0)) =
          fst (rank_loop sv 0 (by_count (filter is_correct ans)) 0 0)"
    using a by (rule filter_True)
  moreover have "filter is_correct (reset_incorrect_answers (filter (\<lambda>a. \<not> is_correct a) ans)) = []"
    using b by (rule filter_False)
  ultimately show ?thesis
    by (simp only: rank_answers_unfold fst_conv filter_append append_Nil2)
qed

lemma filter_out_incorrect:
  "filter (\<lambda>a. \<not> is_correct a) (fst (rank_answers sv ans)) =
     reset_incorrect_answers (filter (\<lambda>a. \<not> is_correct a) ans)"
proof -
  have a: "\<forall>a\<in>set (fst (rank_loop sv 0 (by_count (filter is_correct ans)) 0 0)). is_correct a"
    by (rule ranked_correct) (simp add: by_count_set)
  have b: "\<forall>a\<in>set (reset_incorrect_answers (filter (\<lambda>a. \<not> is_correct a) ans)). \<not> is_correct a"
    using reset_incorrect_filter [of ans] by blast
  have "filter (\<lambda>a. \<not> is_correct a) (fst (rank_loop sv 0 (by_count (filter is_correct ans)) 0 0)) = []"
    using a by (intro filter_False) simp
  moreover have "filter (\<lambda>a. \<not> is_correct a) (reset_incorrect_answers (filter (\<lambda>a. \<not> is_correct a) ans)) =
      reset_incorrect_answers (filter (\<lambda>a. \<not> is_correct a) ans)"
    using b by (rule filter_True)
  ultimately show ?thesis
    by (simp only: rank_answers_unfold fst_conv filter_append append_Nil)
qed

text \<open>
  Claim C4. After \<open>rank_answers\<close> on any answer list, every answer of the result whose
  correctness flag is false has rank 0 and score 0, whatever rank and score it had in
  the input.
\<close>

theorem rank_answers_incorrect_reset:
  "\<forall>a\<in>set (fst (rank_answers scoring_values ans)).
     \<not> is_correct a \<longrightarrow> rank a = Some 0 \<and> score a = Some 0"
proof (intro ballI impI)
  fix a
  assume "a \<in> set (fst (rank_answers scoring_values ans))" and "\<not> is_correct a"
  then have "a \<in> set (filter (\<lambda>a. \<not> is_correct a) (fst (rank_answers scoring_values ans)))"
    by simp
  then have "a \<in> set (reset_incorrect_answers (filter (\<lambda>a. \<not> is_correct a) ans))"
    by (simp only: filter_out_incorrect)
  then show "rank a = Some 0 \<and> score a = Some 0"
    using reset_incorrect_filter [of ans] by blast
qed


lemma mset_partition_map:
  "mset (map f (filter P xs)) + mset (map f (filter (\<lambda>x. \<not> P x) xs)) = mset (map f xs)"
  by (induction xs) simp_all

lemma reset_forget:
  "map forget_ranking (reset_incorrect_answers xs) = map forget_ranking xs"
  by (simp add: reset_incorrect_answers_def forget_ranking_def)

lemma by_count_mset: "mset (by_count xs) = mset xs"
  by (simp add: by_count_def)

lemma ranked_forget_mset:
  "mset (map forget_ranking (fst (rank_loop sv 0 (by_count xs) 0 0))) = mset (map forget_ranking xs)"
proof -
  have "mset (map forget_ranking (by_count xs)) = mset (map forget_ranking xs)"
    using by_count_mset [of xs] by (metis mset_map)
  then show ?thesis by (simp only: rank_loop_forget)
qed

lemma rank_answers_forget_mset:
  "mset (map forget_ranking (fst (rank_answers sv ans))) = mset (map forget_ranking ans)"
proof -
  have "mset (map forget_ranking (fst (rank_answers sv ans))) =
        mset (map forget_ranking (filter is_correct ans))
          + mset (map forget_ranking (filter (\<lambda>a. \<not> is_correct a) ans))"
    by (simp only: rank_answers_unfold fst_conv map_append mset_append ranked_forget_mset
        reset_forget)
  then show ?thesis by (simp only: mset_partition_map)
qed

lemma ranked_ranks:
  "map rank (fst (rank_loop sv 0 xs r s)) = map (\<lambda>i. Some (int i + 1)) [0..<length xs]"
  by (rule nth_equalityI) (simp_all add: rank_loop_length rank_loop_nth)

lemma ranked_scores:
  "map score (fst (rank_loop sv 0 xs r s)) = map (\<lambda>i. Some (table_score sv i)) [0..<length xs]"
  by (rule nth_equalityI) (simp_all add: rank_loop_length rank_loop_nth)

lemma by_count_length: "length (by_count xs) = length xs"
  by (simp add: by_count_def)

lemma rank_answers_length: "length (fst (rank_answers sv ans)) = length ans"
proof -
  have "length (fst (rank_answers sv ans)) =
          length (filter is_correct ans) + length (filter (\<lambda>a. \<not> is_correct a) ans)"
    by (simp add: rank_answers_unfold rank_loop_length by_count_length reset_incorrect_answers_def)
  then show ?thesis by (simp add: sum_length_filter_compl)
qed

text \<open>
  Claim C9. \<open>rank_answers\<close> is a total function: on every list of answer records,
  the empty one included, it returns. The result has the length of the input and holds
  the same records up to the rank and score fields (as multisets, once those two fields
  are forgotten), the correct ones first, with ranks 1, 2, ... in this order, then the
  incorrect ones. The ranked count is the number of correct answers and the scored count
  the number of correct answers of the result with a positive score.
\<close>

theorem rank_answers_permutation_counts:
  "case rank_answers scoring_values ans of (out, answers_ranked, answers_scored) \<Rightarrow>
     length out = length ans \<and>
     mset (map forget_ranking out) = mset (map forget_ranking ans) \<and>
     out = filter is_correct out @ filter (\<lambda>a. \<not> is_correct a) out \<and>
     map rank (filter is_correct out) =
       map (\<lambda>i. Some (int i + 1)) [0..<length (filter is_correct ans)] \<and>
     answers_ranked = length (filter is_correct ans) \<and>
     answers_scored = length (filter (\<lambda>a. is_correct a \<and> 0 < get_or (score a) 0) out)"
proof -
  obtain out nr ns where e: "rank_answers scoring_values ans = (out, nr, ns)"
    by (cases "rank_answers scoring_values ans") blast
  have out: "out = fst (rank_answers scoring_values ans)"
    by (simp add: e)
  let ?R = "fst (rank_loop scoring_values 0 (by_count (filter is_correct ans)) 0 0)"
  have c: "filter is_correct out = ?R"
    unfolding out by (rule filter_out_correct)
  have i: "filter (\<lambda>a. \<not> is_correct a) out =
             reset_incorrect_answers (filter (\<lambda>a. \<not> is_correct a) ans)"
    unfolding out by (rule filter_out_incorrect)
  have 1: "length out = length ans"
    unfolding out by (rule rank_answers_length)
  have 2: "mset (map forget_ranking out) = mset (map forget_ranking ans)"
    unfolding out by (rule rank_answers_forget_mset)
  have 3: "out = filter is_correct out @ filter (\<lambda>a. \<not> is_correct a) out"
    unfolding c i unfolding out by (simp only: rank_answers_unfold fst_conv)
  have 4: "map rank (filter is_correct out) =
             map (\<lambda>i. Some (int i + 1)) [0..<length (filter is_correct ans)]"
    unfolding c by (simp only: ranked_ranks by_count_length)
  have 5: "nr = length (filter is_correct ans)"
    using e by (simp add: rank_answers_unfold)
  have "ns = length (filter (\<lambda>a. 0 < get_or (score a) 0) ?R)"
    using e by (simp add: rank_answers_unfold)
  also have "\<dots> = length (filter (\<lambda>a. 0 < get_or (score a) 0) (filter is_correct out))"
    by (simp only: c)
  also have "\<dots> = length (filter (\<lambda>a. is_correct a \<and> 0 < get_or (score a) 0) out)"
    by (simp only: filter_filter conj_commute)
  finally have 6: "ns = length (filter (\<lambda>a. is_correct a \<and> 0 < get_or (score a) 0) out)" .
  show ?thesis
    unfolding e prod.case using 1 2 3 4 5 6 by blast
qed

lemma by_count_sorted: "sorted (map (\<lambda>x. - get_or (responseCount x) 0) (by_count xs))"
  by (simp add: by_count_def)

lemma by_count_descending:
  assumes "i < length xs" and "j < length xs"
    and "get_or (responseCount (by_count xs ! j)) 0 < get_or (responseCount (by_count xs ! i)) 0"
  shows "i < j"
proof (rule ccontr)
  assume "\<not> i < j"
  then have ji: "j \<le> i" by simp
  let ?k = "map (\<lambda>x. - get_or (responseCount x) 0) (by_count xs)"
  have "?k ! j \<le> ?k ! i"
    using by_count_sorted [of xs] ji assms(1) by (simp add: sorted_iff_nth_mono by_count_length)
  then show False
    using assms by (simp add: by_count_length)
qed

lemma ranked_monotone:
  assumes a: "a \<in> set (fst (rank_loop sv 0 (by_count xs) r s))"
    and b: "b \<in> set (fst (rank_loop sv 0 (by_count xs) r s))"
    and lt: "get_or (responseCount b) 0 < get_or (responseCount a) 0"
  shows "get_or (rank a) 0 < get_or (rank b) 0"
proof -
  let ?S = "by_count xs"
  let ?R = "fst (rank_loop sv 0 ?S r s)"
  have len: "length ?R = length xs"
    by (simp add: rank_loop_length by_count_length)
  from a obtain i where i: "i < length xs" "?R ! i = a"
    unfolding in_set_conv_nth len by blast
  from b obtain j where j: "j < length xs" "?R ! j = b"
    unfolding in_set_conv_nth len by blast
  have ai: "a = (?S ! i)\<lparr>rank := Some (int i + 1), score := Some (table_score sv i)\<rparr>"
    using i rank_loop_nth [of i ?S sv 0 r s] by (simp add: by_count_length)
  have bj: "b = (?S ! j)\<lparr>rank := Some (int j + 1), score := Some (table_score sv j)\<rparr>"
    using j rank_loop_nth [of j ?S sv 0 r s] by (simp add: by_count_length)
  have "get_or (responseCount (?S ! j)) 0 < get_or (responseCount (?S ! i)) 0"
    using lt by (simp add: ai bj)
  then have "i < j"
    using by_count_descending [of i xs j] i(1) j(1) by blast
  then show ?thesis
    by (simp add: ai bj get_or_def)
qed

lemma ranked_ties:
  "filter (\<lambda>a. get_or (responseCount a) 0 = c)
      (map forget_ranking (fst (rank_loop sv 0 (by_count xs) r s))) =
   filter (\<lambda>a. get_or (responseCount a) 0 = c) (map forget_ranking xs)"
proof -
  have f: "\<And>ys :: 'a answer_record_scheme list.
      filter (\<lambda>a. get_or (responseCount a) 0 = c) (map forget_ranking ys) =
        map forget_ranking (filter (\<lambda>a. - get_or (responseCount a) 0 = - c) ys)"
    by (simp add: filter_map comp_def forget_ranking_def)
  have "filter (\<lambda>a. - get_or (responseCount a) 0 = - c) (by_count xs) =
        filter (\<lambda>a. - get_or (responseCount a) 0 = - c) xs"
    unfolding by_count_def by (rule sort_key_stable)
  then show ?thesis
    by (simp only: rank_loop_forget f)
qed

text \<open>
  Claim C3. After \<open>rank_answers\<close> on any answer list with \<open>k\<close> correct answers, the
  correct answers of the result carry the ranks 1, ..., \<open>k\<close>, each once, in this order;
  the answer at position \<open>i\<close> (rank \<open>i + 1\<close>) has the score of the table at \<open>i\<close>, 0
  beyond the table; a correct answer with a strictly greater response count has a
  strictly smaller rank; and the correct answers with one and the same response count
  stand in their input order.
\<close>

theorem rank_answers_ranks_and_scores:
  "case rank_answers scoring_values ans of (out, answers_ranked, answers_scored) \<Rightarrow>
     map rank (filter is_correct out) =
       map (\<lambda>i. Some (int i + 1)) [0..<length (filter is_correct ans)] \<and>
     map score (filter is_correct out) =
       map (\<lambda>i. Some (table_score scoring_values i)) [0..<length (filter is_correct ans)] \<and>
     (\<forall>a\<in>set (filter is_correct out). \<forall>b\<in>set (filter is_correct out).
        get_or (responseCount b) 0 < get_or (responseCount a) 0 \<longrightarrow>
          get_or (rank a) 0 < get_or (rank b) 0) \<and>
     (\<forall>c. filter (\<lambda>a. get_or (responseCount a) 0 = c) (map forget_ranking (filter is_correct out)) =
          filter (\<lambda>a. get_or (responseCount a) 0 = c) (map forget_ranking (filter is_correct ans)))"
proof -
  obtain out nr ns where e: "rank_answers scoring_values ans = (out, nr, ns)"
    by (cases "rank_answers scoring_values ans") blast
  have out: "out = fst (rank_answers scoring_values ans)"
    by (simp add: e)
  let ?R = "fst (rank_loop scoring_values 0 (by_count (filter is_correct ans)) 0 0)"
  have c: "filter is_correct out = ?R"
    unfolding out by (rule filter_out_correct)
  have 1: "map rank (filter is_correct out) =
             map (\<lambda>i. Some (int i + 1)) [0..<length (filter is_correct ans)]"
    unfolding c by (simp only: ranked_ranks by_count_length)
  have 2: "map score (filter is_correct out) =
             map (\<lambda>i. Some (table_score scoring_values i)) [0..<length (filter is_correct ans)]"
    unfolding c by (simp only: ranked_scores by_count_length)
  have 3: "\<forall>a\<in>set (filter is_correct out). \<forall>b\<in>set (filter is_correct out).
        get_or (responseCount b) 0 < get_or (responseCount a) 0 \<longrightarrow>
          get_or (rank a) 0 < get_or (rank b) 0"
    unfolding c using ranked_monotone by blast
  have 4: "\<forall>c. filter (\<lambda>a. get_or (responseCount a) 0 = c) (map forget_ranking (filter is_correct out)) =
          filter (\<lambda>a. get_or (responseCount a) 0 = c) (map forget_ranking (filter is_correct ans))"
    unfolding c by (simp only: ranked_ties) simp
  show ?thesis
    unfolding e prod.case using 1 2 3 4 by blast
qed


lemma scenario_ranked:
  "rank_answers [100, 80, 60] scenario_answers =
    ([\<lparr>answer = Some ''lyon'', isCorrect = Some True, responseCount = Some 10, rank = Some 1, score = Some 100\<rparr>,
      \<lparr>answer = Some ''paris'', isCorrect = Some True, responseCount = Some 7, rank = Some 2, score = Some 80\<rparr>,
      \<lparr>answer = Some ''nice'', isCorrect = Some True, responseCount = Some 7, rank = Some 3, score = Some 60\<rparr>,
      \<lparr>answer = Some ''metz'', isCorrect = Some True, responseCount = Some 2, rank = Some 4, score = Some 0\<rparr>], 4, 3)"
  by code_simp

theorem rank_answers_ranks_and_scores_witness:
  "(case rank_answers [100, 80, 60] scenario_answers of (out, answers_ranked, answers_scored) \<Rightarrow>
      map rank out = [Some 1, Some 2, Some 3, Some 4] \<and>
      map score out = [Some 100, Some 80, Some 60, Some 0] \<and>
      map responseCount out = [Some 10, Some 7, Some 7, Some 2] \<and>
      map answer out = [Some ''lyon'', Some ''paris'', Some ''nice'', Some ''metz''])"
proof -
  have k: "filter is_correct scenario_answers = scenario_answers"
    by (simp add: scenario_answers_def is_correct_def get_or_def)
  have u: "[0..<4] = [0, 1, 2, 3::nat]"
    by (simp add: upt_rec)
  have l: "length scenario_answers = 4"
    by (simp add: scenario_answers_def)
  from rank_answers_ranks_and_scores [where scoring_values = "[100, 80, 60]" and ans = scenario_answers]
  have "map rank (filter is_correct (fst (rank_answers [100, 80, 60] scenario_answers))) =
          [Some 1, Some 2, Some 3, Some 4] \<and>
        map score (filter is_correct (fst (rank_answers [100, 80, 60] scenario_answers))) =
          [Some 100, Some 80, Some 60, Some 0]"
    by (simp add: split_beta k l u table_score_def)
  then show ?thesis
    by (simp add: scenario_ranked is_correct_def get_or_def)
qed

lemma mixed_ranked:
  "rank_answers [100, 80, 60] mixed_answers =
    ([\<lparr>answer = Some ''lyon'', isCorrect = Some True, responseCount = Some 10, rank = Some 1, score = Some 100\<rparr>,
      \<lparr>answer = Some ''paris'', isCorrect = Some True, responseCount = Some 7, rank = Some 2, score = Some 80\<rparr>,
      \<lparr>answer = Some ''nice'', isCorrect = Some True, responseCount = Some 7, rank = Some 3, score = Some 60\<rparr>,
      \<lparr>answer = Some ''metz'', isCorrect = Some True, responseCount = Some 2, rank = Some 4, score = Some 0\<rparr>,
      \<lparr>answer = Some ''rome'', isCorrect = Some False, responseCount = Some 70, rank = Some 0, score = Some 0\<rparr>], 4, 3)"
  by code_simp

theorem rank_answers_incorrect_reset_witness:
  "\<lparr>answer = Some ''rome'', isCorrect = Some False, responseCount = Some 70, rank = Some 0, score = Some 0\<rparr>
      \<in> set (fst (rank_answers [100, 80, 60] mixed_answers)) \<and>
   \<not> is_correct \<lparr>answer = Some ''rome'', isCorrect = Some False, responseCount = Some 70, rank = Some 0, score = Some 0\<rparr> \<and>
   rank \<lparr>answer = Some ''rome'', isCorrect = Some False, responseCount = Some 70, rank = Some 0, score = Some 0\<rparr> = Some 0 \<and>
   score \<lparr>answer = Some ''rome'', isCorrect = Some False, responseCount = Some 70, rank = Some 0, score = Some 0\<rparr> = Some 0"
proof -
  let ?w = "\<lparr>answer = Some ''rome'', isCorrect = Some False, responseCount = Some 70, rank = Some 0, score = Some (0::int)\<rparr>"
  have m: "?w \<in> set (fst (rank_answers [100, 80, 60] mixed_answers))"
    by (simp add: mixed_ranked)
  have n: "\<not> is_correct ?w"
    by (simp add: is_correct_def get_or_def)
  from rank_answers_incorrect_reset [of "[100, 80, 60]" mixed_answers] m n
  have "rank ?w = Some 0 \<and> score ?w = Some 0" by blast
  with m n show ?thesis by blast
qed

section \<open>Eligibility rules: proofs\<close>

lemma input_final_loop_eq:
  "input_final_loop xs acc =
     (if \<forall>a\<in>set xs. strip (get_or (answer a) []) \<noteq> []
      then (True, acc @ map input_final_answer xs) else (False, []))"
proof (induction xs arbitrary: acc)
  case Nil
  show ?case by simp
next
  case (Cons a xs)
  have t: "get_or (answer (input_final_answer a)) [] = strip (get_or (answer a) [])"
    by (simp add: input_final_answer_def get_or_def)
  show ?case
    by (simp add: Let_def t Cons.IH)
qed


lemma sort_key_cong_set:
  "(\<And>x. x \<in> set xs \<Longrightarrow> f x = g x) \<Longrightarrow> sort_key f xs = sort_key g xs"
proof (induction xs)
  case Nil
  show ?case by simp
next
  case (Cons a xs)
  have s: "sort_key f xs = sort_key g xs"
    using Cons by simp
  have i: "\<And>ys. set ys \<subseteq> set xs \<Longrightarrow> insort_key f a ys = insort_key g a ys"
  proof -
    fix ys show "set ys \<subseteq> set xs \<Longrightarrow> insort_key f a ys = insort_key g a ys"
      using Cons.prems by (induction ys) auto
  qed
  show ?case
    using s i [of "sort_key g xs"] by simp
qed

lemma qualifying_rank_default:
  "sort_key (\<lambda>x. get_or (rank x) 999) (filter input_qualifies xs) =
   sort_key (\<lambda>x. get_or (rank x) 0) (filter input_qualifies xs)"
proof (rule sort_key_cong_set)
  fix x assume "x \<in> set (filter input_qualifies xs)"
  then have "0 < get_or (rank x) 0"
    by (simp add: input_qualifies_def)
  then show "get_or (rank x) 999 = get_or (rank x) 0"
    by (cases "rank x") (simp_all add: get_or_def)
qed

lemma prepare_input_eq:
  "prepare_input_question_for_final question_id all_answers =
     (if input_eligible all_answers
      then (True, map input_final_answer (input_top_3 all_answers)) else (False, []))"
  by (simp add: prepare_input_question_for_final_def Let_def input_final_loop_eq
      qualifying_rank_default input_eligible_def input_top_3_def list_all_iff not_less)


lemma input_top_3_length:
  "3 \<le> length (filter input_qualifies all_answers) \<Longrightarrow> length (input_top_3 all_answers) = 3"
  by (simp add: input_top_3_def)

lemma input_answers_nonempty:
  "input_eligible all_answers \<Longrightarrow> all_answers \<noteq> []"
  by (auto simp: input_eligible_def)

text \<open>
  Claim C2. For a question of type Input, the preparation deems it eligible exactly when
  at least three of its answers have the correctness flag true, a rank above 0 and a score
  above 0, and none of the three best of them by ascending rank has a text that is empty
  after trimming. When eligible it emits exactly those three, each as
  \<open>input_final_answer\<close> builds it: trimmed text, integer response count, rank and
  score, correctness true. With fewer than three such answers (with two, say) it is not
  eligible. The batch step includes the question under the same condition.
\<close>

theorem input_question_eligibility:
  "prepare_input_question_for_final question_id all_answers =
     (if input_eligible all_answers
      then (True, map input_final_answer (input_top_3 all_answers)) else (False, [])) \<and>
   (input_eligible all_answers \<longrightarrow> length (input_top_3 all_answers) = 3) \<and>
   (length (filter input_qualifies all_answers) < 3 \<longrightarrow>
      prepare_input_question_for_final question_id all_answers = (False, [])) \<and>
   (lower (get_or (questionType q) []) = ''input'' \<longrightarrow>
      prepare_questions_for_final_submission get_question_id (q # rest) =
        (if input_eligible (get_or (answers q) [])
         then final_question q (map input_final_answer (input_top_3 (get_or (answers q) [])))
                # prepare_questions_for_final_submission get_question_id rest
         else prepare_questions_for_final_submission get_question_id rest))"
proof (intro conjI impI)
  show "prepare_input_question_for_final question_id all_answers =
     (if input_eligible all_answers
      then (True, map input_final_answer (input_top_3 all_answers)) else (False, []))"
    by (rule prepare_input_eq)
  show "length (input_top_3 all_answers) = 3" if "input_eligible all_answers"
    using that by (simp add: input_eligible_def input_top_3_length)
  show "prepare_input_question_for_final question_id all_answers = (False, [])"
    if "length (filter input_qualifies all_answers) < 3"
    using that by (simp add: prepare_input_eq input_eligible_def)
  show "prepare_questions_for_final_submission get_question_id (q # rest) =
        (if input_eligible (get_or (answers q) [])
         then final_question q (map input_final_answer (input_top_3 (get_or (answers q) [])))
                # prepare_questions_for_final_submission get_question_id rest
         else prepare_questions_for_final_submission get_question_id rest)"
    if t: "lower (get_or (questionType q) []) = ''input''"
  proof (cases "input_eligible (get_or (answers q) [])")
    case True
    have ne: "get_or (answers q) [] \<noteq> []"
      using True by (rule input_answers_nonempty)
    have "length (input_top_3 (get_or (answers q) [])) = 3"
      using True by (simp add: input_eligible_def input_top_3_length)
    then have ne3: "input_top_3 (get_or (answers q) []) \<noteq> []"
      by auto
    show ?thesis
      using True ne ne3
      by (simp add: t Let_def validate_and_prepare_answers_for_final_def prepare_input_eq)
  next
    case False
    then show ?thesis
      by (simp add: t Let_def validate_and_prepare_answers_for_final_def prepare_input_eq)
  qed
qed


theorem input_question_eligibility_witness:
  "input_eligible scenario_ranked_answers \<and>
   prepare_input_question_for_final ''q1'' scenario_ranked_answers =
     (True,
      [\<lparr>answer = Some ''lyon'', isCorrect = Some True, responseCount = Some 10, rank = Some 1, score = Some 100\<rparr>,
       \<lparr>answer = Some ''paris'', isCorrect = Some True, responseCount = Some 7, rank = Some 2, score = Some 80\<rparr>,
       \<lparr>answer = Some ''nice'', isCorrect = Some True, responseCount = Some 7, rank = Some 3, score = Some 60\<rparr>]) \<and>
   length (filter input_qualifies (take 2 scenario_ranked_answers)) < 3 \<and>
   prepare_input_question_for_final ''q1'' (take 2 scenario_ranked_answers) = (False, [])"
proof -
  have e: "input_eligible scenario_ranked_answers"
    by code_simp
  have t: "map input_final_answer (input_top_3 scenario_ranked_answers) =
      [\<lparr>answer = Some ''lyon'', isCorrect = Some True, responseCount = Some 10, rank = Some 1, score = Some 100\<rparr>,
       \<lparr>answer = Some ''paris'', isCorrect = Some True, responseCount = Some 7, rank = Some 2, score = Some 80\<rparr>,
       \<lparr>answer = Some ''nice'', isCorrect = Some True, responseCount = Some 7, rank = Some 3, score = Some 60\<rparr>]"
    by code_simp
  have l: "length (filter input_qualifies (take 2 scenario_ranked_answers)) < 3"
    by code_simp
  from input_question_eligibility [where all_answers = scenario_ranked_answers and question_id = "''q1''",
      THEN conjunct1]
  have 1: "prepare_input_question_for_final ''q1'' scenario_ranked_answers =
      (True, map input_final_answer (input_top_3 scenario_ranked_answers))"
    using e by simp
  from input_question_eligibility [where all_answers = "take 2 scenario_ranked_answers" and question_id = "''q1''",
      THEN conjunct2, THEN conjunct2, THEN conjunct1]
  have 2: "prepare_input_question_for_final ''q1'' (take 2 scenario_ranked_answers) = (False, [])"
    using l by (rule mp)
  show ?thesis
    using e 1 2 l unfolding t by blast
qed

lemma mcq_text_loop_eq:
  "mcq_text_loop xs acc =
     (if \<forall>a\<in>set xs. strip (get_or (answer a) []) \<noteq> []
      then Some (acc @ map (\<lambda>a. lower (strip (get_or (answer a) []))) xs) else None)"
  by (induction xs arbitrary: acc) (simp_all add: Let_def)

lemma card_set_length: "card (set xs) = length xs \<longleftrightarrow> distinct xs"
  using card_distinct distinct_card by blast

lemma prepare_mcq_eq:
  "prepare_mcq_question_for_final question_id all_answers =
     (if mcq_eligible all_answers then (True, map mcq_final_answer all_answers) else (False, []))"
proof -
  have c: "length all_answers = 4 \<Longrightarrow>
      (card ((\<lambda>a. lower (strip (get_or (answer a) []))) ` set all_answers) = 4) =
        distinct (map (\<lambda>a. lower (strip (get_or (answer a) []))) all_answers)"
    using card_set_length [of "map (\<lambda>a. lower (strip (get_or (answer a) []))) all_answers"]
    by simp
  show ?thesis
  proof (cases "length all_answers = 4")
    case True
    then show ?thesis
      by (simp add: prepare_mcq_question_for_final_def Let_def mcq_text_loop_eq c
          mcq_eligible_def list_all_iff)
  next
    case False
    then show ?thesis
      by (simp add: prepare_mcq_question_for_final_def mcq_eligible_def)
  qed
qed

text \<open>
  Claim C1, as amended. The MCQ rule, which \<open>validate_and_prepare_answers_for_final\<close>
  applies to the type tag \<open>mcq\<close>, classifies a question as eligible exactly when it has
  4 answers, exactly 1 of them marked correct, every trimmed text non-empty and the 4
  trimmed lower-cased texts pairwise distinct; it then emits all 4 answers, each with its
  text trimmed and its own correctness flag. With 2 answers marked correct the rule never
  deems the question eligible. The batch step \<open>prepare_questions_for_final_submission\<close>
  passes over every question whose lower-cased type tag is not \<open>input\<close>, so it emits no
  record for an MCQ question.
\<close>

theorem mcq_rule_and_batch_gate:
  "validate_and_prepare_answers_for_final q question_id ''mcq'' =
     (if mcq_eligible (get_or (answers q) [])
      then (True, map mcq_final_answer (get_or (answers q) [])) else (False, [])) \<and>
   (length (filter (\<lambda>a. isCorrect a = Some True) (get_or (answers q) [])) = 2 \<longrightarrow>
      validate_and_prepare_answers_for_final q question_id ''mcq'' = (False, [])) \<and>
   isCorrect (mcq_final_answer a) = Some (get_or (isCorrect a) False) \<and>
   answer (mcq_final_answer a) = Some (strip (get_or (answer a) [])) \<and>
   (lower (get_or (questionType q) []) \<noteq> ''input'' \<longrightarrow>
      prepare_questions_for_final_submission get_question_id (q # rest) =
        prepare_questions_for_final_submission get_question_id rest)"
proof (intro conjI impI)
  show "validate_and_prepare_answers_for_final q question_id ''mcq'' =
     (if mcq_eligible (get_or (answers q) [])
      then (True, map mcq_final_answer (get_or (answers q) [])) else (False, []))"
    by (simp add: validate_and_prepare_answers_for_final_def Let_def prepare_mcq_eq)
  show "validate_and_prepare_answers_for_final q question_id ''mcq'' = (False, [])"
    if "length (filter (\<lambda>a. isCorrect a = Some True) (get_or (answers q) [])) = 2"
    using that
    by (simp add: validate_and_prepare_answers_for_final_def Let_def prepare_mcq_eq mcq_eligible_def)
  show "isCorrect (mcq_final_answer a) = Some (get_or (isCorrect a) False)"
    by (simp add: mcq_final_answer_def)
  show "answer (mcq_final_answer a) = Some (strip (get_or (answer a) []))"
    by (simp add: mcq_final_answer_def)
  show "prepare_questions_for_final_submission get_question_id (q # rest) =
        prepare_questions_for_final_submission get_question_id rest"
    if "lower (get_or (questionType q) []) \<noteq> ''input''"
    using that by (simp add: Let_def)
qed


text \<open>
  Claim C1 as it was stated fails: this question of type MCQ has 4 answers, 1 of them
  correct, distinct non-empty texts, and the preparation step emits nothing for it.
\<close>

theorem mcq_batch_counterexample:
  "lower (get_or (questionType mcq_question) []) = ''mcq'' \<and>
   mcq_eligible (get_or (answers mcq_question) []) \<and>
   prepare_questions_for_final_submission (\<lambda>q. get_or (qid q) []) [mcq_question] = []"
  by code_simp

theorem mcq_rule_and_batch_gate_witness:
  "mcq_eligible (get_or (answers mcq_question) []) \<and>
   validate_and_prepare_answers_for_final mcq_question ''q7'' ''mcq'' =
     (True,
      [\<lparr>answer = Some ''Paris'', isCorrect = Some True, responseCount = Some 9, rank = Some 1, score = Some 100\<rparr>,
       \<lparr>answer = Some ''Rome'', isCorrect = Some False, responseCount = Some 1, rank = Some 0, score = Some 0\<rparr>,
       \<lparr>answer = Some ''Oslo'', isCorrect = Some False, responseCount = Some 1, rank = Some 0, score = Some 0\<rparr>,
       \<lparr>answer = Some ''Bern'', isCorrect = Some False, responseCount = Some 1, rank = Some 0, score = Some 0\<rparr>]) \<and>
   lower (get_or (questionType mcq_question) []) \<noteq> ''input'' \<and>
   prepare_questions_for_final_submission (\<lambda>q. get_or (qid q) []) (mcq_question # []) =
     prepare_questions_for_final_submission (\<lambda>q. get_or (qid q) []) ([] :: question_record list)"
proof -
  have e: "mcq_eligible (get_or (answers mcq_question) [])"
    by code_simp
  have m: "map mcq_final_answer (get_or (answers mcq_question) []) =
      [\<lparr>answer = Some ''Paris'', isCorrect = Some True, responseCount = Some 9, rank = Some 1, score = Some 100\<rparr>,
       \<lparr>answer = Some ''Rome'', isCorrect = Some False, responseCount = Some 1, rank = Some 0, score = Some 0\<rparr>,
       \<lparr>answer = Some ''Oslo'', isCorrect = Some False, responseCount = Some 1, rank = Some 0, score = Some 0\<rparr>,
       \<lparr>answer = Some ''Bern'', isCorrect = Some False, responseCount = Some 1, rank = Some 0, score = Some 0\<rparr>]"
    by code_simp
  have t: "lower (get_or (questionType mcq_question) []) \<noteq> ''input''"
    by code_simp
  note th = mcq_rule_and_batch_gate [where q = mcq_question and question_id = "''q7''"
      and get_question_id = "\<lambda>q. get_or (qid q) []" and rest = "[]"]
  from th [THEN conjunct1] e
  have 1: "validate_and_prepare_answers_for_final mcq_question ''q7'' ''mcq'' =
      (True, map mcq_final_answer (get_or (answers mcq_question) []))"
    by simp
  have 2: "prepare_questions_for_final_submission (\<lambda>q. get_or (qid q) []) (mcq_question # []) =
     prepare_questions_for_final_submission (\<lambda>q. get_or (qid q) []) ([] :: question_record list)"
    by (rule mp [OF th [THEN conjunct2, THEN conjunct2, THEN conjunct2, THEN conjunct2] t])
  show ?thesis
    using e 1 2 t unfolding m by blast
qed

section \<open>Reconciliation: proofs\<close>

lemma existing_lookup_Nil: "existing_lookup [] = Map.empty"
  by (simp add: existing_lookup_def)

lemma existing_lookup_snoc:
  "existing_lookup (xs @ [x]) =
     (if question_key x \<noteq> [] then (existing_lookup xs)(question_key x \<mapsto> x)
      else existing_lookup xs)"
  by (simp add: existing_lookup_def Let_def)

lemma existing_lookup_last:
  "existing_lookup ex k =
     (if k = [] then None
      else case filter (\<lambda>e. question_key e = k) ex of [] \<Rightarrow> None | e # es \<Rightarrow> Some (last (e # es)))"
proof (induction ex rule: rev_induct)
  case Nil
  show ?case by (simp add: existing_lookup_Nil)
next
  case (snoc x xs)
  show ?case
  proof (cases "k = []")
    case True
    have "existing_lookup xs [] = None"
      using snoc.IH True by simp
    then show ?thesis
      using True by (simp add: existing_lookup_snoc)
  next
    case False
    note k = this
    show ?thesis
    proof (cases "question_key x = k")
      case True
      then show ?thesis
        using k by (cases "filter (\<lambda>e. question_key e = k) xs") (simp_all add: existing_lookup_snoc)
    next
      case False
      then show ?thesis
        using k by (simp add: existing_lookup_snoc snoc.IH)
    qed
  qed
qed

lemma existing_lookup_Some:
  assumes "existing_lookup ex k = Some e"
  shows "e \<in> set ex \<and> question_key e = k \<and> k \<noteq> []"
proof -
  from assms have k: "k \<noteq> []"
    by (auto simp: existing_lookup_last split: if_splits)
  from assms k obtain y ys where f: "filter (\<lambda>e. question_key e = k) ex = y # ys" and e: "e = last (y # ys)"
    by (auto simp: existing_lookup_last split: list.splits)
  have "last (y # ys) \<in> set (filter (\<lambda>e. question_key e = k) ex)"
    unfolding f by (rule last_in_set) simp
  then show ?thesis
    using k e by simp
qed

lemma existing_lookup_empty_key: "existing_lookup ex [] = None"
  by (simp add: existing_lookup_last)

lemma existing_lookup_no_match:
  "\<forall>e\<in>set ex. question_key e \<noteq> k \<Longrightarrow> existing_lookup ex k = None"
  using existing_lookup_Some [of ex k] by (cases "existing_lookup ex k") auto

lemma question_key_empty: "question_key q = [] \<longleftrightarrow> empty_text q"
  by (simp add: question_key_def lower_def empty_text_def)

lemma categorize_loop_eq:
  "categorize_loop lookup qs (n, u, c) =
     (n @ filter (\<lambda>q. bucket_of lookup q = New) qs,
      u @ map (\<lambda>q. q\<lparr>existing_id := remote_id lookup q\<rparr>)
            (filter (\<lambda>q. bucket_of lookup q = Changed) qs),
      c @ filter (\<lambda>q. bucket_of lookup q = Unchanged) qs)"
proof (induction qs arbitrary: n u c)
  case Nil
  show ?case by simp
next
  case (Cons q qs)
  show ?case
  proof (cases "lookup (question_key q)")
    case None
    then show ?thesis
      by (simp add: Cons.IH bucket_of_def)
  next
    case (Some e)
    then show ?thesis
      by (simp add: Cons.IH bucket_of_def remote_id_def)
  qed
qed

lemma categorize_eq:
  "categorize_questions_for_submission final existing =
     (filter (\<lambda>q. classify existing q = New) final,
      map (\<lambda>q. q\<lparr>existing_id := remote_id (existing_lookup existing) q\<rparr>)
        (filter (\<lambda>q. classify existing q = Changed) final),
      filter (\<lambda>q. classify existing q = Unchanged) final)"
  by (simp add: categorize_questions_for_submission_def categorize_loop_eq classify_def)

lemma bucket_partition:
  "length (filter (\<lambda>q. f q = New) qs) + length (filter (\<lambda>q. f q = Changed) qs)
     + length (filter (\<lambda>q. f q = Unchanged) qs) = length qs"
proof (induction qs)
  case Nil
  show ?case by simp
next
  case (Cons q qs)
  then show ?case by (cases "f q") simp_all
qed

text \<open>
  Claim C5. Reconciliation puts every local final record into exactly one of three
  buckets, by the lookup of the remote records under their trimmed lower-cased question
  text: the new records are those whose key has no entry (in particular those whose key
  no remote record has), the changed ones those whose entry has different answers under
  the normalized comparison, and they get the entry's identifier as \<open>existing_id\<close>, the
  unchanged ones those whose entry compares equal. The three lists together have the
  length of the local list.
\<close>

theorem categorize_three_buckets:
  "categorize_questions_for_submission final existing =
     (filter (\<lambda>q. classify existing q = New) final,
      map (\<lambda>q. q\<lparr>existing_id := remote_id (existing_lookup existing) q\<rparr>)
        (filter (\<lambda>q. classify existing q = Changed) final),
      filter (\<lambda>q. classify existing q = Unchanged) final) \<and>
   length (filter (\<lambda>q. classify existing q = New) final)
     + length (filter (\<lambda>q. classify existing q = Changed) final)
     + length (filter (\<lambda>q. classify existing q = Unchanged) final) = length final \<and>
   (\<forall>k e. existing_lookup existing k = Some e \<longrightarrow>
        e \<in> set existing \<and> lower (strip (get_or (question e) [])) = k) \<and>
   (\<forall>q. (\<forall>e\<in>set existing. question_key e \<noteq> question_key q) \<longrightarrow> classify existing q = New)"
proof (intro conjI allI impI)
  show "categorize_questions_for_submission final existing =
     (filter (\<lambda>q. classify existing q = New) final,
      map (\<lambda>q. q\<lparr>existing_id := remote_id (existing_lookup existing) q\<rparr>)
        (filter (\<lambda>q. classify existing q = Changed) final),
      filter (\<lambda>q. classify existing q = Unchanged) final)"
    by (rule categorize_eq)
  show "length (filter (\<lambda>q. classify existing q = New) final)
     + length (filter (\<lambda>q. classify existing q = Changed) final)
     + length (filter (\<lambda>q. classify existing q = Unchanged) final) = length final"
    by (rule bucket_partition)
  show "e \<in> set existing" if "existing_lookup existing k = Some e" for k e
    using existing_lookup_Some [OF that] by simp
  show "lower (strip (get_or (question e) [])) = k" if "existing_lookup existing k = Some e" for k e
    using existing_lookup_Some [OF that] by (simp add: question_key_def)
  show "classify existing q = New" if "\<forall>e\<in>set existing. question_key e \<noteq> question_key q" for q
    using existing_lookup_no_match [OF that] by (simp add: classify_def bucket_of_def)
qed


lemma empty_text_update [simp]: "empty_text (q\<lparr>existing_id := x\<rparr>) = empty_text q"
  by (simp add: empty_text_def)

lemma empty_text_new: "empty_text q \<Longrightarrow> classify existing q = New"
  by (simp add: classify_def bucket_of_def question_key_empty [symmetric] existing_lookup_empty_key)

text \<open>
  Claim C10. A remote record whose question text is empty after trimming is never an
  entry of the lookup. A local record whose question text is empty after trimming
  finds no entry and is classified new: all such records are in the list of new records,
  none in the list of records to update and none in the list of unchanged records.
\<close>

theorem empty_text_always_new:
  "(\<forall>k e. existing_lookup existing k = Some e \<longrightarrow> \<not> empty_text e) \<and>
   (empty_text q \<longrightarrow>
      existing_lookup existing (question_key q) = None \<and> classify existing q = New) \<and>
   (case categorize_questions_for_submission final existing of
      (new_questions, updated_questions, unchanged_questions) \<Rightarrow>
        filter empty_text new_questions = filter empty_text final \<and>
        filter empty_text updated_questions = [] \<and>
        filter empty_text unchanged_questions = [])"
proof (intro conjI allI impI)
  show "\<not> empty_text e" if "existing_lookup existing k = Some e" for k e
    using existing_lookup_Some [OF that] by (auto simp: question_key_empty [symmetric])
  show "existing_lookup existing (question_key q) = None" if "empty_text q"
    using that by (simp add: question_key_empty [symmetric] existing_lookup_empty_key)
  show "classify existing q = New" if "empty_text q"
    using that by (rule empty_text_new)
  have 1: "filter empty_text (filter (\<lambda>q. classify existing q = New) final) = filter empty_text final"
    unfolding filter_filter by (rule filter_cong) (auto simp: empty_text_new)
  have 2: "filter empty_text
             (map (\<lambda>q. q\<lparr>existing_id := remote_id (existing_lookup existing) q\<rparr>)
                (filter (\<lambda>q. classify existing q = Changed) final)) = []"
    by (auto simp: filter_empty_conv empty_text_new)
  have 3: "filter empty_text (filter (\<lambda>q. classify existing q = Unchanged) final) = []"
    by (auto simp: filter_empty_conv empty_text_new)
  show "case categorize_questions_for_submission final existing of
      (new_questions, updated_questions, unchanged_questions) \<Rightarrow>
        filter empty_text new_questions = filter empty_text final \<and>
        filter empty_text updated_questions = [] \<and>
        filter empty_text unchanged_questions = []"
    unfolding categorize_eq prod.case using 1 2 3 by blast
qed

lemma filter_eq_replicate: "filter (\<lambda>x. k = x) xs = replicate (count (mset xs) k) k"
  by (induction xs) auto

lemma filter_key_inj:
  assumes "inj_on f (set xs)" and "k \<in> set xs"
  shows "filter (\<lambda>x. f k = f x) xs = filter (\<lambda>x. k = x) xs"
  by (rule filter_cong) (use assms in \<open>auto dest: inj_onD\<close>)

lemma sort_key_mset_inj:
  assumes m: "mset xs = mset ys" and i: "inj_on f (set xs)"
  shows "sort_key f xs = sort_key f ys"
proof (rule properties_for_sort_key)
  show "mset (sort_key f ys) = mset xs"
    using m by simp
  show "sorted (map f (sort_key f ys))"
    by simp
  fix k assume "k \<in> set (sort_key f ys)"
  then have ky: "k \<in> set ys" by simp
  have s: "set ys = set xs"
    using m by (metis set_mset_mset)
  have "filter (\<lambda>x. f k = f x) (sort_key f ys) = filter (\<lambda>x. f k = f x) ys"
    using sort_key_stable [of f "f k" ys] by (simp add: eq_commute)
  also have "\<dots> = filter (\<lambda>x. k = x) ys"
    using i ky s by (intro filter_key_inj) simp_all
  also have "\<dots> = filter (\<lambda>x. k = x) xs"
    by (simp only: filter_eq_replicate m)
  also have "\<dots> = filter (\<lambda>x. f k = f x) xs"
    using i ky s by (intro filter_key_inj [symmetric]) simp_all
  finally show "filter (\<lambda>x. f k = f x) (sort_key f ys) = filter (\<lambda>x. f k = f x) xs" .
qed


text \<open>
  Claim C6, as amended. If the answers of a local and of a remote record differ at most in
  their order and in the case and outer whitespace of their texts, and no two normalized
  answers of the list share text and rank while differing in another field, then the
  normalized comparison reports no change, and a local record whose lookup entry is
  that remote record is classified unchanged.
\<close>

theorem reordered_answers_unchanged:
  assumes "same_up_to_order_and_text (get_or (answers n) []) (get_or (answers e) [])"
    and "keys_decide (get_or (answers n) [])"
  shows "\<not> answers_have_changed n e \<and>
         (existing_lookup existing (question_key n) = Some e \<longrightarrow> classify existing n = Unchanged)"
proof -
  let ?xs = "map normalize_answer_for_comparison (get_or (answers n) [])"
  let ?ys = "map normalize_answer_for_comparison (get_or (answers e) [])"
  have m: "mset ?xs = mset ?ys"
    using assms(1) by (simp add: same_up_to_order_and_text_def)
  then have "size (mset ?xs) = size (mset ?ys)" by simp
  then have l: "length (get_or (answers n) []) = length (get_or (answers e) [])"
    by simp
  have "sort_key comparison_key ?xs = sort_key comparison_key ?ys"
    using m assms(2) unfolding keys_decide_def by (rule sort_key_mset_inj)
  then have u: "\<not> answers_have_changed n e"
    using l by (simp add: answers_have_changed_def Let_def)
  then show ?thesis
    by (simp add: classify_def bucket_of_def)
qed

theorem categorize_three_buckets_witness:
  "categorize_questions_for_submission local_questions remote_questions =
     ([example_record None ''Lakes?'' local_answers],
      [(example_record None ''Towns?'' local_answers)\<lparr>existing_id := Some ''r2''\<rparr>],
      [example_record None ''Cities of France?'' local_answers])"
proof -
  have 1: "filter (\<lambda>q. classify remote_questions q = New) local_questions =
             [example_record None ''Lakes?'' local_answers]"
    by code_simp
  have 2: "map (\<lambda>q. q\<lparr>existing_id := remote_id (existing_lookup remote_questions) q\<rparr>)
             (filter (\<lambda>q. classify remote_questions q = Changed) local_questions) =
             [(example_record None ''Towns?'' local_answers)\<lparr>existing_id := Some ''r2''\<rparr>]"
    by code_simp
  have 3: "filter (\<lambda>q. classify remote_questions q = Unchanged) local_questions =
             [example_record None ''Cities of France?'' local_answers]"
    by code_simp
  show ?thesis
    using categorize_three_buckets [where final = local_questions and existing = remote_questions,
        THEN conjunct1]
    unfolding 1 2 3 .
qed

text \<open>
  Claim C6 as it was stated fails: a list of two answers with the same text and rank and
  different scores, and the same list in the other order, compare as changed.
\<close>

theorem reordered_answers_counterexample:
  "same_up_to_order_and_text tied_answers (rev tied_answers) \<and>
   answers_have_changed (example_record None ''Cities?'' tied_answers)
     (example_record (Some ''r1'') ''Cities?'' (rev tied_answers))"
  by code_simp

theorem reordered_answers_unchanged_witness:
  "same_up_to_order_and_text local_answers remote_answers_reordered \<and>
   keys_decide local_answers \<and>
   \<not> answers_have_changed (example_record None ''Cities of France?'' local_answers)
        (example_record (Some ''r1'') ''  cities of FRANCE? '' remote_answers_reordered)"
proof -
  have a: "get_or (answers (example_record None ''Cities of France?'' local_answers)) [] = local_answers"
    by (simp add: example_record_def get_or_def)
  have b: "get_or (answers (example_record (Some ''r1'') ''  cities of FRANCE? '' remote_answers_reordered)) []
             = remote_answers_reordered"
    by (simp add: example_record_def get_or_def)
  have s: "same_up_to_order_and_text local_answers remote_answers_reordered"
    by code_simp
  have k: "keys_decide local_answers"
    by code_simp
  from reordered_answers_unchanged
         [where n = "example_record None ''Cities of France?'' local_answers"
            and e = "example_record (Some ''r1'') ''  cities of FRANCE? '' remote_answers_reordered",
          unfolded a b, OF s k]
  show ?thesis
    using s k by blast
qed


theorem empty_text_always_new_witness:
  "empty_text blank_local \<and> empty_text blank_remote \<and>
   existing_lookup [blank_remote] (question_key blank_local) = None \<and>
   classify [blank_remote] blank_local = New"
proof -
  have e: "empty_text blank_local"
    by code_simp
  have r: "empty_text blank_remote"
    by code_simp
  from empty_text_always_new [where q = blank_local and existing = "[blank_remote]",
      THEN conjunct2, THEN conjunct1] e
  have "existing_lookup [blank_remote] (question_key blank_local) = None \<and>
        classify [blank_remote] blank_local = New"
    by blast
  with e r show ?thesis by blast
qed

section \<open>Final submission: proofs\<close>

lemma make_request_requests:
  "requests (snd (make_request api w req)) = requests w @ [req]"
  by (simp add: make_request_def split_beta)

lemma get_existing_requests:
  "requests (snd (get_existing_final_questions api w)) = requests w @ [get_request]"
  by (simp add: get_existing_final_questions_def get_request_def make_request_def split_beta
      split: outcome.splits)

lemma submit_new_requests:
  "requests (snd (submit_new_final_questions api w qs)) =
     requests w @ [Request POST final_endpoint (Some qs)]"
  by (simp add: submit_new_final_questions_def make_request_def split_beta split: outcome.splits)

lemma handle_fetch_none:
  assumes "get_existing_final_questions api w = (None, w1)"
  shows "handle_final_submission_with_updates api w final =
           (case submit_new_final_questions api w1 final of
              (None, w2) \<Rightarrow> (error_result (length final), w2)
            | (Some r, w2) \<Rightarrow> (r, w2))"
  by (simp add: handle_final_submission_with_updates_def assms)

text \<open>
  Claim C8. Whenever the fetch of the existing final collection gives \<^verbatim>\<open>None\<close>, the
  submission is the creation of all the locally prepared records: after the fetch exactly
  one request is made, the POST of the whole list to the final endpoint, and no update
  request; the result is the result of that creation (the error result when the request
  raises).
\<close>

theorem fetch_unknown_submits_all_as_new:
  assumes "fst (get_existing_final_questions api w) = None"
  shows "handle_final_submission_with_updates api w final =
           (case submit_new_final_questions api (snd (get_existing_final_questions api w)) final of
              (None, w2) \<Rightarrow> (error_result (length final), w2)
            | (Some r, w2) \<Rightarrow> (r, w2)) \<and>
         requests (snd (handle_final_submission_with_updates api w final)) =
           requests w @ [Request GET final_endpoint None, Request POST final_endpoint (Some final)]"
proof -
  obtain w1 where g: "get_existing_final_questions api w = (None, w1)"
    using assms by (cases "get_existing_final_questions api w") simp
  have h: "handle_final_submission_with_updates api w final =
           (case submit_new_final_questions api w1 final of
              (None, w2) \<Rightarrow> (error_result (length final), w2)
            | (Some r, w2) \<Rightarrow> (r, w2))"
    using g by (rule handle_fetch_none)
  have w1: "requests w1 = requests w @ [get_request]"
    using get_existing_requests [of api w] by (simp add: g)
  have "snd (handle_final_submission_with_updates api w final) =
          snd (submit_new_final_questions api w1 final)"
    unfolding h by (simp split: prod.splits option.splits)
  then have "requests (snd (handle_final_submission_with_updates api w final)) =
          requests w1 @ [Request POST final_endpoint (Some final)]"
    by (simp only: submit_new_requests)
  then show ?thesis
    using h by (simp add: g w1 get_request_def)
qed

lemma lookup_unique:
  assumes u: "remote_keys_unique ex" and r: "r \<in> set ex" and k: "question_key r \<noteq> []"
  shows "existing_lookup ex (question_key r) = Some r"
proof -
  have "r \<in> set (filter (\<lambda>e. question_key e = question_key r) ex)"
    using r by simp
  then obtain y ys where f: "filter (\<lambda>e. question_key e = question_key r) ex = y # ys"
    by (cases "filter (\<lambda>e. question_key e = question_key r) ex") auto
  have "last (y # ys) \<in> set (filter (\<lambda>e. question_key e = question_key r) ex)"
    unfolding f by (rule last_in_set) simp
  then have "last (y # ys) \<in> set ex" and "question_key (last (y # ys)) = question_key r"
    by simp_all
  then have "last (y # ys) = r"
    using u r unfolding remote_keys_unique_def list_all_iff by metis
  then show ?thesis
    using k f by (simp add: existing_lookup_last)
qed

lemma counterpart_unchanged:
  assumes u: "remote_keys_unique existing" and c: "has_counterpart existing l"
    and e: "\<not> empty_text l"
  shows "classify existing l = Unchanged"
proof -
  from c obtain r where r: "r \<in> set existing" "question_key r = question_key l"
      "\<not> answers_have_changed l r"
    unfolding has_counterpart_def list_ex_iff by blast
  have "question_key r \<noteq> []"
    using e r(2) by (simp add: question_key_empty)
  then have "existing_lookup existing (question_key l) = Some r"
    using lookup_unique [OF u r(1)] r(2) by simp
  then show ?thesis
    using r(3) by (simp add: classify_def bucket_of_def)
qed

lemma all_unchanged_categorize:
  assumes "\<forall>l\<in>set final. classify existing l = Unchanged"
  shows "categorize_questions_for_submission final existing = ([], [], final)"
proof -
  have 1: "filter (\<lambda>q. classify existing q = New) final = []"
    using assms by (simp add: filter_empty_conv)
  have 2: "filter (\<lambda>q. classify existing q = Changed) final = []"
    using assms by (simp add: filter_empty_conv)
  have 3: "filter (\<lambda>q. classify existing q = Unchanged) final = final"
    using assms by (simp add: filter_id_conv)
  show ?thesis
    unfolding categorize_eq 1 2 3 by simp
qed


lemma handle_all_unchanged:
  assumes g: "get_existing_final_questions api w = (Some existing, w1)"
    and c: "categorize_questions_for_submission final existing = ([], [], final)"
  shows "handle_final_submission_with_updates api w final = (unchanged_result (length final), w1)"
  by (simp add: handle_final_submission_with_updates_def g c unchanged_result_def)

text \<open>
  Claim C7, as amended. Let every local final record have a question text that is not empty
  after trimming and a remote counterpart with the same normalized question text and
  normalized-equal answers, and let no two different remote records share a normalized
  question text. Then every record is classified unchanged and the submission makes no
  request besides the fetch: no create and no update. A second run on the state the first
  one leaves, in which the fetch gives the same collection, does the same.
\<close>

theorem identical_sets_issue_no_writes:
  assumes fetch1: "get_existing_final_questions api w = (Some existing, w1)"
    and fetch2: "get_existing_final_questions api w1 = (Some existing, w2)"
    and unique: "remote_keys_unique existing"
    and same: "\<forall>l\<in>set final. \<not> empty_text l \<and> has_counterpart existing l"
  shows "categorize_questions_for_submission final existing = ([], [], final) \<and>
         handle_final_submission_with_updates api w final = (unchanged_result (length final), w1) \<and>
         requests w1 = requests w @ [Request GET final_endpoint None] \<and>
         handle_final_submission_with_updates api w1 final = (unchanged_result (length final), w2) \<and>
         requests w2 = requests w @ [Request GET final_endpoint None, Request GET final_endpoint None]"
proof -
  have "\<forall>l\<in>set final. classify existing l = Unchanged"
    using unique same counterpart_unchanged by blast
  then have c: "categorize_questions_for_submission final existing = ([], [], final)"
    by (rule all_unchanged_categorize)
  have r1: "requests w1 = requests w @ [get_request]"
    using get_existing_requests [of api w] by (simp add: fetch1)
  have r2: "requests w2 = requests w1 @ [get_request]"
    using get_existing_requests [of api w1] by (simp add: fetch2)
  show ?thesis
    using c handle_all_unchanged [OF fetch1 c] handle_all_unchanged [OF fetch2 c] r1 r2
    by (simp add: get_request_def)
qed

text \<open>
  Claim C7 as it was stated fails in two ways. A local record without question text has
  a remote counterpart and is created again; a local record whose counterpart shares its
  key with a later remote record with other answers is updated.
\<close>

theorem identical_sets_counterexample:
  "list_all (has_counterpart [blank_remote]) [blank_local] \<and>
   requests (snd (handle_final_submission_with_updates store_api
                    \<lparr>server = [blank_remote], requests = []\<rparr> [blank_local])) =
     [Request GET final_endpoint None, Request POST final_endpoint (Some [blank_local])] \<and>
   list_all (has_counterpart remote_collision) [cities_local] \<and>
   requests (snd (handle_final_submission_with_updates store_api
                    \<lparr>server = remote_collision, requests = []\<rparr> [cities_local])) =
     [Request GET final_endpoint None,
      Request PUT (final_endpoint @ ''/r3'') (Some [cities_local\<lparr>existing_id := Some ''r3''\<rparr>])]"
  by code_simp

theorem identical_sets_issue_no_writes_witness:
  "remote_keys_unique [cities_remote] \<and>
   \<not> empty_text cities_local \<and> has_counterpart [cities_remote] cities_local \<and>
   handle_final_submission_with_updates store_api \<lparr>server = [cities_remote], requests = []\<rparr>
       [cities_local] =
     (unchanged_result 1,
      \<lparr>server = [cities_remote], requests = [Request GET final_endpoint None]\<rparr>) \<and>
   handle_final_submission_with_updates store_api
       \<lparr>server = [cities_remote], requests = [Request GET final_endpoint None]\<rparr> [cities_local] =
     (unchanged_result 1,
      \<lparr>server = [cities_remote],
        requests = [Request GET final_endpoint None, Request GET final_endpoint None]\<rparr>)"
proof -
  let ?w = "\<lparr>server = [cities_remote], requests = []\<rparr>"
  let ?w1 = "\<lparr>server = [cities_remote], requests = [Request GET final_endpoint None]\<rparr>"
  let ?w2 = "\<lparr>server = [cities_remote],
               requests = [Request GET final_endpoint None, Request GET final_endpoint None]\<rparr>"
  have f1: "get_existing_final_questions store_api ?w = (Some [cities_remote], ?w1)"
    by (simp add: get_existing_final_questions_def make_request_def store_api_def)
  have f2: "get_existing_final_questions store_api ?w1 = (Some [cities_remote], ?w2)"
    by (simp add: get_existing_final_questions_def make_request_def store_api_def)
  have u: "remote_keys_unique [cities_remote]"
    by (simp add: remote_keys_unique_def)
  have e: "\<not> empty_text cities_local"
    by code_simp
  have c: "has_counterpart [cities_remote] cities_local"
    by code_simp
  have s: "\<forall>l\<in>set [cities_local]. \<not> empty_text l \<and> has_counterpart [cities_remote] l"
    using e c by simp
  from identical_sets_issue_no_writes [OF f1 f2 u s]
  show ?thesis
    using u e c by simp
qed

theorem fetch_unknown_submits_all_as_new_witness:
  "fst (get_existing_final_questions down_api \<lparr>server = (), requests = []\<rparr>) = None \<and>
   requests (snd (handle_final_submission_with_updates down_api \<lparr>server = (), requests = []\<rparr>
                    local_questions)) =
     [Request GET final_endpoint None, Request POST final_endpoint (Some local_questions)]"
proof -
  have n: "fst (get_existing_final_questions down_api \<lparr>server = (), requests = []\<rparr>) = None"
    by (simp add: get_existing_final_questions_def make_request_def down_api_def)
  from fetch_unknown_submits_all_as_new [OF n, of local_questions, THEN conjunct2] n
  show ?thesis
    by simp
qed

end
